theory Spec2Isabelle
  imports Complex_Main "HOL-Library.Log_Nat"
begin

section \<open>Python values used by the inventory dashboard\<close>

text \<open>
  The prediction core (\<^verbatim>\<open>models/predictor.py\<close>) computes on Python integers
  (unbounded, modelled as \<^typ>\<open>int\<close>) and on Python floats (IEEE 754 binary64).
  Exceptions are values: a computation that may raise returns \<open>py_error + 'a\<close>, with
  \<open>Inl\<close> carrying the exception.
\<close>

datatype py_error = OverflowError | ValueError | TypeError | OperationalError

subsection \<open>Binary64 floats\<close>

text \<open>
  A float is a finite rational (every finite double is a dyadic rational), an infinity
  or NaN. The two zeros are identified: no operation modelled here tells them apart
  (\<^verbatim>\<open>int()\<close> and the comparisons give the same answer for both).
\<close>

datatype pyfloat = Finite rat | PosInf | NegInf | NaN

text \<open>\<open>ilog2 q\<close> is \<open>\<lfloor>log\<^sub>2 q\<rfloor>\<close> for a positive rational \<open>q\<close>.\<close>

definition ilog2 :: "rat \<Rightarrow> int" where
  "ilog2 q = (if 1 \<le> q then bitlen \<lfloor>q\<rfloor> - 1 else - bitlen (\<lceil>1 / q\<rceil> - 1))"

text \<open>Rounding to the nearest integer, ties to the even one.\<close>

definition round_half_even :: "rat \<Rightarrow> int" where
  "round_half_even x =
     (let f = \<lfloor>x\<rfloor>; d = x - of_int f
      in if d < 1 / 2 then f else if 1 / 2 < d then f + 1 else if even f then f else f + 1)"

text \<open>
  The magnitude of the double nearest to a positive rational, before the overflow check:
  a 53-bit significand, scaled by a power of two that is at least \<open>2\<^sup>-\<^sup>1\<^sup>0\<^sup>7\<^sup>4\<close>
  (the spacing of the subnormal doubles).
\<close>

definition round_mag :: "rat \<Rightarrow> rat" where
  "round_mag q =
     (let e = max (ilog2 q - 52) (- 1074)
      in of_int (round_half_even (q / 2 powi e)) * 2 powi e)"

text \<open>Round-to-nearest-even into binary64; a result of magnitude \<open>2\<^sup>1\<^sup>0\<^sup>2\<^sup>4\<close> or more
  overflows to an infinity.\<close>

definition double_of_rat :: "rat \<Rightarrow> pyfloat" where
  "double_of_rat q =
     (if q = 0 then Finite 0
      else let r = round_mag \<bar>q\<bar>
           in if 2 ^ 1024 \<le> r then (if 0 < q then PosInf else NegInf)
              else Finite (if 0 < q then r else - r))"

text \<open>A decimal float literal of the source denotes the double nearest to it.\<close>

definition float_lit :: "rat \<Rightarrow> pyfloat" where
  "float_lit q = double_of_rat q"

text \<open>\<^verbatim>\<open>float(n)\<close> for an integer, as the mixed operators apply it: correctly rounded,
  \<^verbatim>\<open>OverflowError\<close> when the integer is too large for a double.\<close>

definition float_of_int :: "int \<Rightarrow> py_error + pyfloat" where
  "float_of_int n =
     (case double_of_rat (of_int n) of
        Finite r \<Rightarrow> Inr (Finite r)
      | PosInf \<Rightarrow> Inl OverflowError
      | NegInf \<Rightarrow> Inl OverflowError
      | NaN \<Rightarrow> Inl OverflowError)"

text \<open>Float multiplication: the exact product, rounded once.\<close>

fun float_mul :: "pyfloat \<Rightarrow> pyfloat \<Rightarrow> pyfloat" where
  "float_mul (Finite a) (Finite b) = double_of_rat (a * b)"
| "float_mul NaN y = NaN"
| "float_mul x NaN = NaN"
| "float_mul (Finite a) PosInf = (if a = 0 then NaN else if 0 < a then PosInf else NegInf)"
| "float_mul (Finite a) NegInf = (if a = 0 then NaN else if 0 < a then NegInf else PosInf)"
| "float_mul PosInf (Finite b) = (if b = 0 then NaN else if 0 < b then PosInf else NegInf)"
| "float_mul NegInf (Finite b) = (if b = 0 then NaN else if 0 < b then NegInf else PosInf)"
| "float_mul PosInf PosInf = PosInf"
| "float_mul PosInf NegInf = NegInf"
| "float_mul NegInf PosInf = NegInf"
| "float_mul NegInf NegInf = PosInf"

text \<open>\<^verbatim>\<open>n * x\<close> for an integer \<open>n\<close> and a float \<open>x\<close>: the integer is converted first.\<close>

definition int_mul_float :: "int \<Rightarrow> pyfloat \<Rightarrow> py_error + pyfloat" where
  "int_mul_float n x =
     (case float_of_int n of Inl err \<Rightarrow> Inl err | Inr a \<Rightarrow> Inr (float_mul a x))"

text \<open>\<^verbatim>\<open>int(x)\<close> for a float: truncation toward zero.\<close>

definition int_of_float :: "pyfloat \<Rightarrow> py_error + int" where
  "int_of_float x =
     (case x of
        Finite r \<Rightarrow> Inr (if 0 \<le> r then \<lfloor>r\<rfloor> else \<lceil>r\<rceil>)
      | PosInf \<Rightarrow> Inl OverflowError
      | NegInf \<Rightarrow> Inl OverflowError
      | NaN \<Rightarrow> Inl ValueError)"

text \<open>\<^verbatim>\<open>n > x\<close> for an integer \<open>n\<close> and a float \<open>x\<close>: Python compares the exact values.\<close>

definition int_gt_float :: "int \<Rightarrow> pyfloat \<Rightarrow> bool" where
  "int_gt_float n x =
     (case x of Finite r \<Rightarrow> r < of_int n | PosInf \<Rightarrow> False | NegInf \<Rightarrow> True | NaN \<Rightarrow> False)"

subsection \<open>Formatting an integer\<close>

text \<open>
  \<^verbatim>\<open>str(n)\<close>, as the f-strings of the source apply it to an integer. CPython refuses to
  convert an integer of more than 4300 decimal digits (the default of
  \<^verbatim>\<open>sys.int_info.default_max_str_digits\<close>) and raises \<^verbatim>\<open>ValueError\<close>.
\<close>

definition int_max_str_digits :: nat where
  "int_max_str_digits = 4300"

definition digit_char :: "nat \<Rightarrow> char" where
  "digit_char d = char_of (48 + d)"

function str_nat :: "nat \<Rightarrow> string" where
  "str_nat n = (if n < 10 then [digit_char n] else str_nat (n div 10) @ [digit_char (n mod 10)])"
  by pat_completeness auto
termination
  by (relation "measure (\<lambda>n. n)") auto

declare str_nat.simps [simp del]

definition int_digits :: "int \<Rightarrow> string" where
  "int_digits i = (if i < 0 then CHR ''-'' # str_nat (nat (- i)) else str_nat (nat i))"

definition str_int :: "int \<Rightarrow> py_error + string" where
  "str_int i =
     (if 10 ^ int_max_str_digits \<le> \<bar>i\<bar> then Inl ValueError else Inr (int_digits i))"

section \<open>The recommendation engine\<close>

text \<open>The dictionary returned by \<^verbatim>\<open>_generate_recommendation\<close>.\<close>

record recommendation =
  decision :: string
  advice :: string
  quantity_action :: int
  optimal_level :: int
  reorder_point :: int
  safety_stock :: int
  required_stock :: int
  stock_gap :: int

text \<open>The three decisions; the source writes them with a space.\<close>

definition MAINTAIN :: string where "MAINTAIN = ''MAINTAIN''"
definition ADD_STOCK :: string where "ADD_STOCK = ''ADD STOCK''"
definition REDUCE_STOCK :: string where "REDUCE_STOCK = ''REDUCE STOCK''"

text \<open>
  \<^verbatim>\<open>_generate_recommendation(current_stock, predicted_demand, season)\<close>. The second
  product \<^verbatim>\<open>optimal_stock * 1.5\<close> is evaluated only when the first test fails, and
  each branch formats one integer into its advice, which can raise. \<open>season\<close> is not
  used.
\<close>

definition generate_recommendation :: "int \<Rightarrow> int \<Rightarrow> string \<Rightarrow> py_error + recommendation" where
  "generate_recommendation current_stock predicted_demand season =
     (case int_mul_float predicted_demand (float_lit (2 / 10)) of
        Inl err \<Rightarrow> Inl err
      | Inr x \<Rightarrow>
     (case int_of_float x of
        Inl err \<Rightarrow> Inl err
      | Inr safety \<Rightarrow>
     (let reorder = predicted_demand;
          optimal_stock = predicted_demand + safety;
          required = optimal_stock;
          gap = max 0 (required - current_stock)
      in if current_stock < reorder then
           (case str_int (optimal_stock - current_stock) of
              Inl err \<Rightarrow> Inl err
            | Inr quantity_text \<Rightarrow>
                Inr \<lparr>decision = ADD_STOCK,
                     advice = ''Add '' @ quantity_text @ '' units'',
                     quantity_action = optimal_stock - current_stock,
                     optimal_level = optimal_stock, reorder_point = reorder,
                     safety_stock = safety, required_stock = required, stock_gap = gap\<rparr>)
         else
           (case int_mul_float optimal_stock (float_lit (15 / 10)) of
              Inl err \<Rightarrow> Inl err
            | Inr y \<Rightarrow>
                if int_gt_float current_stock y then
                  (case str_int (current_stock - optimal_stock) of
                     Inl err \<Rightarrow> Inl err
                   | Inr quantity_text \<Rightarrow>
                       Inr \<lparr>decision = REDUCE_STOCK,
                            advice = ''Reduce by '' @ quantity_text @ '' units'',
                            quantity_action = current_stock - optimal_stock,
                            optimal_level = optimal_stock, reorder_point = reorder,
                            safety_stock = safety, required_stock = required,
                            stock_gap = gap\<rparr>)
                else
                  (case str_int current_stock of
                     Inl err \<Rightarrow> Inl err
                   | Inr stock_text \<Rightarrow>
                       Inr \<lparr>decision = MAINTAIN,
                            advice = ''Maintain '' @ stock_text @ '' units'',
                            quantity_action = current_stock,
                            optimal_level = optimal_stock, reorder_point = reorder,
                            safety_stock = safety, required_stock = required,
                            stock_gap = gap\<rparr>)))))"

section \<open>The stock predictor\<close>

text \<open>\<^verbatim>\<open>d.get(key, default)\<close> on a dictionary.\<close>

definition dict_get :: "('k \<rightharpoonup> 'v) \<Rightarrow> 'k \<Rightarrow> 'v \<Rightarrow> 'v" where
  "dict_get d k dflt = (case d k of None \<Rightarrow> dflt | Some v \<Rightarrow> v)"

text \<open>A JSON number of the catalog: an integer or a float.\<close>

datatype py_number = PyInt int | PyFloat pyfloat

text \<open>
  A catalog entry of \<^verbatim>\<open>products.json\<close>. \<open>name\<close> is always present; the keys read with
  \<^verbatim>\<open>.get\<close> may be absent.
\<close>

record product_entry =
  name :: string
  category :: "string option"
  current_price :: "py_number option"
  unit :: "string option"

text \<open>Season, then category, to multiplier.\<close>

type_synonym pattern_table = "string \<rightharpoonup> (string \<rightharpoonup> pyfloat)"

text \<open>The state of an \<^verbatim>\<open>InventoryPredictor\<close>: both tables are loaded once, by the constructor.\<close>

record inventory_predictor =
  seasonal_patterns :: pattern_table
  products_data :: "product_entry list"

text \<open>\<^verbatim>\<open>_get_default_seasonal_patterns\<close>: the table used when no pattern file exists.\<close>

definition get_default_seasonal_patterns :: pattern_table where
  "get_default_seasonal_patterns = map_of
     [(''Summer'', map_of
         [(''Beverages'', float_lit (15 / 10)),
          (''Fruits'', float_lit (14 / 10)),
          (''Vegetables'', float_lit (13 / 10)),
          (''Groceries'', float_lit (10 / 10)),
          (''Personal Care'', float_lit (12 / 10))]),
      (''Winter'', map_of
         [(''Beverages'', float_lit (8 / 10)),
          (''Fruits'', float_lit (9 / 10)),
          (''Vegetables'', float_lit (12 / 10)),
          (''Groceries'', float_lit (11 / 10)),
          (''Personal Care'', float_lit (10 / 10))]),
      (''Monsoon'', map_of
         [(''Beverages'', float_lit (12 / 10)),
          (''Fruits'', float_lit (11 / 10)),
          (''Vegetables'', float_lit (10 / 10)),
          (''Groceries'', float_lit (13 / 10)),
          (''Personal Care'', float_lit (14 / 10))]),
      (''Regular'', map_of
         [(''Beverages'', float_lit (10 / 10)),
          (''Fruits'', float_lit (10 / 10)),
          (''Vegetables'', float_lit (10 / 10)),
          (''Groceries'', float_lit (10 / 10)),
          (''Personal Care'', float_lit (10 / 10))])]"

text \<open>The lookup of line 85:
  \<^verbatim>\<open>self.seasonal_patterns.get(season, {}).get(category, 1.0)\<close>.\<close>

definition seasonal_multiplier_lookup :: "pattern_table \<Rightarrow> string \<Rightarrow> string \<Rightarrow> pyfloat" where
  "seasonal_multiplier_lookup patterns season cat =
     dict_get (dict_get patterns season Map.empty) cat (float_lit (10 / 10))"

text \<open>\<^verbatim>\<open>_get_category_base_demand\<close>.\<close>

definition get_category_base_demand :: "string \<Rightarrow> int" where
  "get_category_base_demand cat =
     dict_get (map_of
       [(''Groceries'', 150),
        (''Dairy'', 200),
        (''Beverages'', 180),
        (''Fruits'', 120),
        (''Vegetables'', 140),
        (''Personal Care'', 90),
        (''Snacks'', 160),
        (''Frozen'', 80),
        (''Condiments'', 70),
        (''Miscellaneous'', 100)]) cat 100"

text \<open>The dictionary returned by \<^verbatim>\<open>predict_stock_requirement\<close>.\<close>

record prediction =
  product :: string
  category :: string
  current_stock :: int
  season :: string
  predicted_demand :: int
  seasonal_multiplier :: pyfloat
  recommendation :: recommendation
  price :: py_number
  unit :: string

text \<open>\<^verbatim>\<open>_get_default_prediction\<close>: the path for a product that is not in the catalog.\<close>

definition get_default_prediction :: "string \<Rightarrow> int \<Rightarrow> string \<Rightarrow> py_error + prediction" where
  "get_default_prediction product_name stock seasn =
     (let factor = dict_get (map_of
            [(''Summer'', float_lit (13 / 10)),
             (''Winter'', float_lit (9 / 10)),
             (''Monsoon'', float_lit (12 / 10)),
             (''Regular'', float_lit (10 / 10))]) seasn (float_lit (10 / 10))
      in case int_mul_float 100 factor of
           Inl err \<Rightarrow> Inl err
         | Inr x \<Rightarrow>
        (case int_of_float x of
           Inl err \<Rightarrow> Inl err
         | Inr demand \<Rightarrow>
        (case generate_recommendation stock demand seasn of
           Inl err \<Rightarrow> Inl err
         | Inr recomm \<Rightarrow>
             Inr \<lparr>product = product_name, category = ''Miscellaneous'',
                  current_stock = stock, season = seasn,
                  predicted_demand = demand, seasonal_multiplier = factor,
                  recommendation = recomm, price = PyInt 0, unit = ''pack''\<rparr>)))"

text \<open>
  \<^verbatim>\<open>predict_stock_requirement\<close>. The product is the first catalog entry with the given
  name; an entry that is found is a non-empty dictionary, so \<^verbatim>\<open>if not product\<close> holds
  exactly when none is found.
\<close>

definition predict_stock_requirement ::
    "inventory_predictor \<Rightarrow> string \<Rightarrow> int \<Rightarrow> string \<Rightarrow> py_error + prediction" where
  "predict_stock_requirement self product_name stock seasn =
     (case find (\<lambda>p. name p = product_name) (products_data self) of
        None \<Rightarrow> get_default_prediction product_name stock seasn
      | Some p \<Rightarrow>
          (let cat = (case product_entry.category p of None \<Rightarrow> ''Groceries'' | Some c \<Rightarrow> c);
               multiplier = seasonal_multiplier_lookup (seasonal_patterns self) seasn cat;
               base_demand = get_category_base_demand cat
           in case int_mul_float base_demand multiplier of
                Inl err \<Rightarrow> Inl err
              | Inr x \<Rightarrow>
             (case int_of_float x of
                Inl err \<Rightarrow> Inl err
              | Inr demand \<Rightarrow>
             (case generate_recommendation stock demand seasn of
                Inl err \<Rightarrow> Inl err
              | Inr recomm \<Rightarrow>
                  Inr \<lparr>product = product_name, category = cat,
                       current_stock = stock, season = seasn,
                       predicted_demand = demand, seasonal_multiplier = multiplier,
                       recommendation = recomm,
                       price = (case current_price p of None \<Rightarrow> PyInt 0 | Some v \<Rightarrow> v),
                       unit = (case product_entry.unit p of None \<Rightarrow> ''pack'' | Some u \<Rightarrow> u)\<rparr>))))"

section \<open>The request handler for an analysis\<close>

text \<open>
  A value of a JSON request body, as \<^verbatim>\<open>request.get_json()\<close> delivers it. An object is
  a Python dictionary, modelled as a map from keys to values. A \<^verbatim>\<open>str\<close> is represented
  by the bytes of its UTF-8 encoding.
\<close>

datatype json =
    JNull
  | JBool bool
  | JInt int
  | JFloat pyfloat
  | JString string
  | JArray "json list"
  | JObject "string \<Rightarrow> json option"

text \<open>\<^verbatim>\<open>key in s\<close> for strings: \<open>key\<close> occurs in \<open>s\<close> as a contiguous substring. The
  keys tested in this program are ASCII; in UTF-8 an ASCII byte occurs only as that
  ASCII character, so containment of such a key is the same on bytes as on characters.\<close>

fun str_contains :: "string \<Rightarrow> string \<Rightarrow> bool" where
  "str_contains key [] = (key = [])"
| "str_contains key (c # cs) = (take (length key) (c # cs) = key \<or> str_contains key cs)"

subsection \<open>\<^verbatim>\<open>int()\<close> on a request value\<close>

text \<open>
  \<^verbatim>\<open>int(v)\<close> for a request value \<open>v\<close>. The conversion of a string, the built-in
  \<^verbatim>\<open>int(str)\<close> of the interpreter, is the parameter \<open>str_to_int\<close>: no property of
  it is assumed.
\<close>

fun int_of_json :: "(string \<Rightarrow> py_error + int) \<Rightarrow> json \<Rightarrow> py_error + int" where
  "int_of_json str_to_int (JInt n) = Inr n"
| "int_of_json str_to_int (JBool b) = Inr (if b then 1 else 0)"
| "int_of_json str_to_int (JFloat x) = int_of_float x"
| "int_of_json str_to_int (JString s) = str_to_int s"
| "int_of_json str_to_int JNull = Inl TypeError"
| "int_of_json str_to_int (JArray xs) = Inl TypeError"
| "int_of_json str_to_int (JObject m) = Inl TypeError"

subsection \<open>\<^verbatim>\<open>api_analyze\<close>, up to the call of the predictor\<close>

text \<open>
  What the handler does with a request body \<open>data\<close>: it answers with an error status,
  lets an exception escape (the framework answers with status 500), or calls
  \<^verbatim>\<open>predictor.predict_stock_requirement\<close> with three arguments.

  The test \<^verbatim>\<open>all(key in data for key in ['product', 'season', 'stock'])\<close> stands before
  the \<^verbatim>\<open>try\<close>: on \<^verbatim>\<open>None\<close>, a number or a boolean \<^verbatim>\<open>key in data\<close> raises
  \<^verbatim>\<open>TypeError\<close>; on a string it is substring containment and on a list it is
  membership. The subscript \<^verbatim>\<open>data['stock']\<close> stands inside the \<^verbatim>\<open>try\<close>, and on a
  string or a list it raises \<^verbatim>\<open>TypeError\<close>, which the handler catches.
\<close>

datatype analyze_outcome =
    Rejected nat string
  | Escaped py_error
  | Invoked json int json

definition api_analyze :: "(string \<Rightarrow> py_error + int) \<Rightarrow> json \<Rightarrow> analyze_outcome" where
  "api_analyze str_to_int data =
     (case data of
        JNull \<Rightarrow> Escaped TypeError
      | JBool b \<Rightarrow> Escaped TypeError
      | JInt n \<Rightarrow> Escaped TypeError
      | JFloat x \<Rightarrow> Escaped TypeError
      | JString s \<Rightarrow>
          if str_contains ''product'' s \<and> str_contains ''season'' s \<and> str_contains ''stock'' s
          then Rejected 400 ''Invalid stock value''
          else Rejected 400 ''Missing required fields''
      | JArray xs \<Rightarrow>
          if JString ''product'' \<in> set xs \<and> JString ''season'' \<in> set xs
             \<and> JString ''stock'' \<in> set xs
          then Rejected 400 ''Invalid stock value''
          else Rejected 400 ''Missing required fields''
      | JObject m \<Rightarrow>
          (case (m ''product'', m ''season'', m ''stock'') of
             (Some product_value, Some season_value, Some stock_value) \<Rightarrow>
               (case int_of_json str_to_int stock_value of
                  Inr stock \<Rightarrow> Invoked product_value stock season_value
                | Inl ValueError \<Rightarrow> Rejected 400 ''Invalid stock value''
                | Inl TypeError \<Rightarrow> Rejected 400 ''Invalid stock value''
                | Inl err \<Rightarrow> Escaped err)
           | _ \<Rightarrow> Rejected 400 ''Missing required fields''))"

section \<open>The keyword fallback of the chatbot\<close>

text \<open>
  \<^verbatim>\<open>str.lower()\<close> is Unicode's lowercase mapping, a built-in of the interpreter. It is
  the parameter \<open>str_lower\<close> of the fallback: no property of it is assumed. On a string
  of ASCII characters it is \<open>ascii_lower\<close>: the letters A to Z go to a to z and every
  other character is kept.
\<close>

definition ascii_lower_char :: "char \<Rightarrow> char" where
  "ascii_lower_char c =
     (if 65 \<le> (of_char c :: nat) \<and> (of_char c :: nat) \<le> 90
      then char_of ((of_char c :: nat) + 32) else c)"

definition ascii_lower :: "string \<Rightarrow> string" where
  "ascii_lower s = map ascii_lower_char s"

text \<open>The phrase table, in the order the source writes it (a dictionary keeps insertion
  order).\<close>

definition responses :: "(string \<times> string) list" where
  "responses =
     [(''seasonal trends dairy'',
       ''Dairy products have stable demand year-round with slight increases during winter months. Yogurt and flavored milk see higher demand in summer. Plan inventory considering festivals like Diwali and Holi.''),
      (''seasonal trends vegetable'',
       ''Vegetables follow strong seasonal patterns. Summer vegetables: tomatoes, cucumber, bell peppers peak. Winter: root vegetables, leafy greens dominate. Monsoon brings better shelf life for stored vegetables.''),
      (''seasonal trends fruit'',
       ''Fruits are highly seasonal. Mangoes: summer peak. Apples/grapes: winter. Monsoon: stone fruits, citrus. Plan sourcing 2-3 weeks ahead. Consider storage capacity.''),
      (''festival demand'',
       ''Festival seasons (Diwali, Holi, NewYear) see 1.5-2x demand increases. Stock special items 3 weeks before. Snacks and dry goods see highest demand. Plan bulk purchases.''),
      (''summer inventory'',
       ''Summer strategy: Stock beverages at 1.5x normal levels. Increase fruits/vegetables daily. Reduce dairy shelf life considerations. Push ice-cream and cold beverages. Monitor expiry dates closely.''),
      (''winter inventory'',
       ''Winter strategy: Increase dairy products. Stock warm beverages (tea, coffee). Promote bakery items. Increase storage for longer shelf-life items. Plan for holiday shopping rush.''),
      (''inventory management'',
       ''Best practices: Monitor reorder points closely. Maintain 20% safety stock. Track fast-moving items weekly. Implement FIFO. Use inventory management system. Regular stock audits.''),
      (''pricing strategy'',
       ''Peak season: maintain or increase prices slightly. Off-season: run promotions. Monitor competitor pricing. Bundle slow items. Use dynamic pricing for perishables. Plan seasonal discounts.''),
      (''demand forecast'',
       ''Use historical data from same season last year. Adjust for growth (5-10% annual). Consider local events and festivals. Track weather patterns. Update forecasts weekly.''),
      (''reorder point'',
       ''Calculate: (Average Daily Sales '' @ [char_of (195::nat), char_of (151::nat)] @ '' Lead Time) + Safety Stock. Review monthly. Adjust for seasonality. Set alerts in system. Monitor supplier reliability.''),
      (''hello'',
       ''Hello! I'm your D-Mart AI Assistant. I can help with inventory management, seasonal planning, pricing strategies, and product insights. What would you like to know?''),
      (''hi'',
       ''Hi there! Ask me about inventory optimization, seasonal trends, pricing, or product categories. How can I help today?''),
      (''help'',
       ''I can assist with: inventory management, seasonal demand forecasting, pricing strategies, category insights, stock optimization, and retail best practices. What's your question?'')]"

text \<open>The single-keyword table.\<close>

definition keywords_table :: "(string \<times> string) list" where
  "keywords_table =
     [(''dairy'',
       ''Dairy products are staple items with consistent demand. Winter sees 1.3x demand. Consider storage capacity and shelf life.''),
      (''vegetable'',
       ''Vegetables are seasonal. Fresh sourcing critical. Monsoon: 1.0x. Summer: 1.3x. Winter: 1.2x demand.''),
      (''beverage'',
       ''Beverages peak in summer (1.5x demand). Winter demand drops. Keep cold drinks well-stocked in summer.''),
      (''season'',
       ''Seasons significantly impact inventory. Summer: beverages, fruits up. Winter: dairy, bakery up. Monsoon: groceries up.''),
      (''price'',
       ''Pricing depends on seasonality and demand. Peak season: maintain/increase. Off-season: promote. Monitor costs.''),
      (''stock'',
       ''Monitor stock levels closely. Set reorder points based on demand. Keep safety stock at 20%.''),
      (''forecast'',
       ''Demand forecasting uses historical data, seasonality, and growth projections. Update weekly.'')]"

definition default_response :: string where
  "default_response =
     ''I'd be happy to help! Ask me about inventory management, seasonal trends, pricing strategies, demand forecasting, or product categories. For real-time AI responses, please configure a Google Gemini API key in the .env file.''"

text \<open>The loop \<^verbatim>\<open>for key, response in table.items(): if key in query_lower: return response\<close>;
  \<open>None\<close> when the loop ends without returning.\<close>

fun first_match :: "(string \<times> string) list \<Rightarrow> string \<Rightarrow> string option" where
  "first_match [] query_lower = None"
| "first_match ((key, response) # rest) query_lower =
     (if str_contains key query_lower then Some response else first_match rest query_lower)"

definition get_fallback_response :: "(string \<Rightarrow> string) \<Rightarrow> string \<Rightarrow> string" where
  "get_fallback_response str_lower query =
     (let query_lower = str_lower query
      in case first_match responses query_lower of
           Some response \<Rightarrow> response
         | None \<Rightarrow>
             (case first_match keywords_table query_lower of
                Some response \<Rightarrow> response
              | None \<Rightarrow> default_response))"

section \<open>The history store\<close>

text \<open>A row of the table \<^verbatim>\<open>inventory_analysis\<close>; a column that may be NULL is an option.
  Timestamps are ordered, which is all the queries use.\<close>

record analysis_row =
  row_id :: nat
  row_product_name :: string
  row_category :: "string option"
  row_season :: string
  row_current_stock :: int
  row_predicted_demand :: "int option"
  row_recommendation :: "string option"
  row_decision :: "string option"
  row_price :: "py_number option"
  row_unit :: "string option"
  row_optimal_level :: "int option"
  row_created_at :: nat
  row_updated_at :: nat

text \<open>A row of the table \<^verbatim>\<open>chatbot_conversations\<close>.\<close>

record chat_row =
  chat_id :: nat
  chat_user_message :: string
  chat_bot_response :: string
  chat_source :: "string option"
  chat_created_at :: nat

record database =
  inventory_analysis :: "analysis_row list"
  chatbot_conversations :: "chat_row list"

text \<open>
  An open connection: the tables, the statements that fail, and the order the engine
  gives to rows that an \<^verbatim>\<open>ORDER BY\<close> leaves tied. A function of \<^verbatim>\<open>database.py\<close>
  executes its statements in a fixed order; \<open>conn_faults\<close> lists the positions (from 0)
  of those that raise, in \<^verbatim>\<open>cursor.execute\<close> or in the fetch of their rows. SQL does not fix the order of tied rows:
  \<open>conn_group_rank\<close> ranks product names and \<open>conn_row_rank\<close> ranks row ids, and tied
  rows come in ascending rank.
\<close>

record connection =
  conn_db :: database
  conn_faults :: "nat list"
  conn_group_rank :: "string \<Rightarrow> int"
  conn_row_rank :: "nat \<Rightarrow> int"

text \<open>The database file: \<^verbatim>\<open>sqlite3.connect\<close> either raises or opens a connection.\<close>

datatype store = Unopenable | Openable connection

definition get_db_connection :: "store \<Rightarrow> py_error + connection" where
  "get_db_connection st =
     (case st of Unopenable \<Rightarrow> Inl OperationalError | Openable conn \<Rightarrow> Inr conn)"

text \<open>The statement at position \<open>k\<close>, with the rows it selects when it succeeds.\<close>

definition execute :: "connection \<Rightarrow> nat \<Rightarrow> 'a \<Rightarrow> py_error + 'a" where
  "execute conn k selected =
     (if k \<in> set (conn_faults conn) then Inl OperationalError else Inr selected)"

text \<open>Sequencing inside a \<^verbatim>\<open>try\<close> block: the first exception ends the block.\<close>

definition and_then :: "py_error + 'a \<Rightarrow> ('a \<Rightarrow> py_error + 'b) \<Rightarrow> py_error + 'b" where
  "and_then m f = (case m of Inl err \<Rightarrow> Inl err | Inr v \<Rightarrow> f v)"

text \<open>\<^verbatim>\<open>SELECT key, COUNT(*) ... GROUP BY key\<close>: one pair for each distinct key.\<close>

definition count_groups :: "'k list \<Rightarrow> ('k \<times> nat) list" where
  "count_groups ks = map (\<lambda>k. (k, count_list ks k)) (remdups ks)"

text \<open>\<^verbatim>\<open>WHERE decision IS NOT NULL\<close>.\<close>

definition not_null :: "'a option list \<Rightarrow> 'a list" where
  "not_null vs = concat (map (\<lambda>v. case v of None \<Rightarrow> [] | Some x \<Rightarrow> [x]) vs)"

text \<open>
  \<^verbatim>\<open>ORDER BY count DESC LIMIT n\<close> and \<^verbatim>\<open>ORDER BY created_at DESC LIMIT n\<close>: a stable
  sort by the key of rows that are in the order of their rank.
\<close>

definition top_counts :: "('k \<Rightarrow> int) \<Rightarrow> nat \<Rightarrow> ('k \<times> nat) list \<Rightarrow> ('k \<times> nat) list" where
  "top_counts rank n groups =
     take n (sort_key (\<lambda>g. - int (snd g)) (sort_key (\<lambda>g. rank (fst g)) groups))"

definition most_recent :: "(nat \<Rightarrow> int) \<Rightarrow> nat \<Rightarrow> analysis_row list \<Rightarrow> analysis_row list" where
  "most_recent rank n rs =
     take n (sort_key (\<lambda>r. - int (row_created_at r)) (sort_key (\<lambda>r. rank (row_id r)) rs))"

text \<open>The dictionary that \<^verbatim>\<open>get_analytics_data\<close> builds when every statement succeeds.\<close>

record analytics =
  total_analyses :: nat
  categories :: "string option \<rightharpoonup> nat"
  seasons :: "string \<rightharpoonup> nat"
  decisions :: "string \<rightharpoonup> nat"
  top_products :: "(string \<times> nat) list"
  recent_analyses :: "analysis_row list"
  total_chats :: nat
  chat_sources :: "string option \<rightharpoonup> nat"

text \<open>The body of the \<^verbatim>\<open>try\<close> block of \<^verbatim>\<open>get_analytics_data\<close>: eight statements.\<close>

definition analytics_queries :: "connection \<Rightarrow> py_error + analytics" where
  "analytics_queries conn =
     (let analyses = inventory_analysis (conn_db conn);
          chats = chatbot_conversations (conn_db conn)
      in and_then (execute conn 0 (length analyses)) (\<lambda>total.
         and_then (execute conn 1 (map_of (count_groups (map row_category analyses)))) (\<lambda>cats.
         and_then (execute conn 2 (map_of (count_groups (map row_season analyses)))) (\<lambda>seas.
         and_then (execute conn 3
             (map_of (count_groups (not_null (map row_decision analyses))))) (\<lambda>decs.
         and_then (execute conn 4
             (top_counts (conn_group_rank conn) 10
                (count_groups (map row_product_name analyses)))) (\<lambda>top.
         and_then (execute conn 5 (most_recent (conn_row_rank conn) 20 analyses)) (\<lambda>recent.
         and_then (execute conn 6 (length chats)) (\<lambda>chat_total.
         and_then (execute conn 7 (map_of (count_groups (map chat_source chats)))) (\<lambda>sources.
           Inr \<lparr>total_analyses = total, categories = cats, seasons = seas,
                decisions = decs, top_products = top, recent_analyses = recent,
                total_chats = chat_total, chat_sources = sources\<rparr>)))))))))"

text \<open>
  \<^verbatim>\<open>get_analytics_data\<close>. The connection is opened before the \<^verbatim>\<open>try\<close>; the handler
  \<^verbatim>\<open>except Exception\<close> returns the empty dictionary, which is \<open>None\<close> here.
\<close>

definition get_analytics_data :: "store \<Rightarrow> py_error + analytics option" where
  "get_analytics_data st =
     (case get_db_connection st of
        Inl err \<Rightarrow> Inl err
      | Inr conn \<Rightarrow>
          (case analytics_queries conn of
             Inl err \<Rightarrow> Inr None
           | Inr summary \<Rightarrow> Inr (Some summary)))"

text \<open>\<^verbatim>\<open>get_recent_analyses(limit)\<close>: one statement; the handler returns the empty list.\<close>

definition get_recent_analyses :: "store \<Rightarrow> nat \<Rightarrow> py_error + analysis_row list" where
  "get_recent_analyses st limit =
     (case get_db_connection st of
        Inl err \<Rightarrow> Inl err
      | Inr conn \<Rightarrow>
          (case execute conn 0
                  (most_recent (conn_row_rank conn) limit (inventory_analysis (conn_db conn))) of
             Inl err \<Rightarrow> Inr []
           | Inr analyses \<Rightarrow> Inr analyses))"

section \<open>The offers script\<close>

text \<open>An offer and an entry of the list \<^verbatim>\<open>offers\<close> of \<^verbatim>\<open>scripts/list_offers.py\<close>.\<close>

record offer =
  offer_type :: string
  discount_percent :: "nat option"
  offer_message :: string

record offer_entry =
  entry_product_name :: string
  entry_category :: "string option"
  entry_current_stock :: int
  entry_predicted_demand :: int
  entry_offers :: "offer list"

definition discount_offer :: "string \<Rightarrow> offer" where
  "discount_offer product_name =
     \<lparr>offer_type = ''DISCOUNT'', discount_percent = Some 20,
      offer_message = ''Apply 20% discount on '' @ product_name @ '' to boost sales.''\<rparr>"

definition bogo_offer :: "string \<Rightarrow> offer" where
  "bogo_offer product_name =
     \<lparr>offer_type = ''BOGO'', discount_percent = None,
      offer_message =
        ''Offer Buy-One-Get-One for '' @ product_name @ '' to clear excess stock.''\<rparr>"

text \<open>
  The two tests on one analysis. \<^verbatim>\<open>int(predicted * 1.5)\<close> is evaluated only when
  \<^verbatim>\<open>predicted > 0\<close> holds.
\<close>

definition item_offers :: "string \<Rightarrow> int \<Rightarrow> int \<Rightarrow> py_error + offer list" where
  "item_offers product_name current predicted =
     (let first = (if 0 < predicted \<and> predicted < current
                   then [discount_offer product_name] else [])
      in if 0 < predicted then
           (case int_mul_float predicted (float_lit (15 / 10)) of
              Inl err \<Rightarrow> Inl err
            | Inr x \<Rightarrow>
           (case int_of_float x of
              Inl err \<Rightarrow> Inl err
            | Inr threshold \<Rightarrow>
                Inr (first @ (if threshold \<le> current then [bogo_offer product_name] else []))))
         else Inr first)"

text \<open>
  The loop over the analyses, with the set \<^verbatim>\<open>seen\<close> and the list \<^verbatim>\<open>offers\<close> as
  accumulators. A row of the table has no key \<^verbatim>\<open>product\<close>, so the product is the
  column \<^verbatim>\<open>product_name\<close>, and an empty name is skipped by \<^verbatim>\<open>if not product\<close>.
  The columns hold values of their declared types, as \<^verbatim>\<open>save_analysis\<close> writes them:
  \<^verbatim>\<open>current_stock\<close> is an integer and \<^verbatim>\<open>predicted_demand\<close> an integer or NULL, so
  \<^verbatim>\<open>int(... or 0)\<close> leaves an integer unchanged and turns NULL into 0.
\<close>

fun offers_loop ::
    "analysis_row list \<Rightarrow> string list \<Rightarrow> offer_entry list \<Rightarrow> py_error + offer_entry list" where
  "offers_loop [] seen acc = Inr acc"
| "offers_loop (a # rest) seen acc =
     (if row_product_name a = [] \<or> row_product_name a \<in> set seen then offers_loop rest seen acc
      else
        (case item_offers (row_product_name a) (row_current_stock a)
                (case row_predicted_demand a of None \<Rightarrow> 0 | Some n \<Rightarrow> n) of
           Inl err \<Rightarrow> Inl err
         | Inr item \<Rightarrow>
             offers_loop rest (row_product_name a # seen)
               (if item = [] then acc
                else acc @
                  [\<lparr>entry_product_name = row_product_name a,
                    entry_category = row_category a,
                    entry_current_stock = row_current_stock a,
                    entry_predicted_demand =
                      (case row_predicted_demand a of None \<Rightarrow> 0 | Some n \<Rightarrow> n),
                    entry_offers = item\<rparr>])))"

text \<open>
  The script: the 1000 most recent analyses, then the loop. The result is the list
  \<^verbatim>\<open>offers\<close>; the script prints one block for each of its entries. When the connection
  cannot be opened, the exception of \<^verbatim>\<open>get_recent_analyses\<close> ends the script.
\<close>

definition list_offers :: "store \<Rightarrow> py_error + offer_entry list" where
  "list_offers st =
     (case get_recent_analyses st 1000 of
        Inl err \<Rightarrow> Inl err
      | Inr analyses \<Rightarrow> offers_loop analyses [] [])"

subsection \<open>The offers as the specification words them\<close>

text \<open>
  The demand that the script reads from a row (\<^verbatim>\<open>int(a.get('predicted_demand') or 0)\<close>).
\<close>

definition row_demand :: "analysis_row \<Rightarrow> int" where
  "row_demand a = (case row_predicted_demand a of None \<Rightarrow> 0 | Some n \<Rightarrow> n)"

text \<open>
  The offers of one analysis, in the words of the claim: a DISCOUNT offer iff
  \<open>predicted_demand > 0\<close> and \<open>current_stock > predicted_demand\<close>, and a BOGO offer iff
  \<open>predicted_demand > 0\<close> and \<open>current_stock \<ge> floor(predicted_demand * 1.5)\<close>, with the
  exact product.
\<close>

definition claimed_offers :: "analysis_row \<Rightarrow> offer list" where
  "claimed_offers a =
     (if 0 < row_demand a \<and> row_demand a < row_current_stock a
      then [discount_offer (row_product_name a)] else [])
     @ (if 0 < row_demand a \<and> \<lfloor>rat_of_int (row_demand a) * (15 / 10)\<rfloor> \<le> row_current_stock a
        then [bogo_offer (row_product_name a)] else [])"

text \<open>The entry that carries the offers of an analysis.\<close>

definition claimed_entry :: "analysis_row \<Rightarrow> offer_entry" where
  "claimed_entry a =
     \<lparr>entry_product_name = row_product_name a, entry_category = row_category a,
      entry_current_stock = row_current_stock a, entry_predicted_demand = row_demand a,
      entry_offers = claimed_offers a\<rparr>"

text \<open>The first analysis of a product in a list of analyses.\<close>

definition first_analysis :: "analysis_row list \<Rightarrow> string \<Rightarrow> analysis_row option" where
  "first_analysis analyses product_name =
     find (\<lambda>a. row_product_name a = product_name) analyses"

section \<open>Facts about the float model\<close>

lemma floor_rat_numeral: "\<lfloor>(numeral a :: rat) / numeral b\<rfloor> = numeral a div numeral b"
  by (metis floor_divide_of_int_eq of_int_numeral)
lemma ceiling_rat_numeral: "\<lceil>(numeral a :: rat) / numeral b\<rceil> = - (- numeral a div numeral b)"
  by (metis ceiling_def floor_divide_of_int_eq minus_divide_left of_int_minus of_int_numeral)
lemmas float_eval = double_of_rat_def round_mag_def ilog2_def round_half_even_def Let_def
  compute_bitlen floor_rat_numeral ceiling_rat_numeral power_int_minus

lemma ilog2_le: assumes "0 < q" shows "2 powi (ilog2 q) \<le> q"
proof (cases "1 \<le> q")
  case True
  then have pos: "0 < \<lfloor>q\<rfloor>" by simp
  then have b1: "1 \<le> bitlen \<lfloor>q\<rfloor>" by (simp add: bitlen_alt_def)
  have "(2::int) ^ nat (bitlen \<lfloor>q\<rfloor> - 1) \<le> \<lfloor>q\<rfloor>" using bitlen_bounds [OF pos] by simp
  then have "rat_of_int (2 ^ nat (bitlen \<lfloor>q\<rfloor> - 1)) \<le> rat_of_int \<lfloor>q\<rfloor>" by (simp only: of_int_le_iff)
  also have "\<dots> \<le> q" by simp
  finally have "(2::rat) ^ nat (bitlen \<lfloor>q\<rfloor> - 1) \<le> q" by simp
  moreover have "ilog2 q = int (nat (bitlen \<lfloor>q\<rfloor> - 1))" using True b1 by (simp add: ilog2_def)
  ultimately show ?thesis by (simp only: power_int_of_nat)
next
  case False
  define m where "m = \<lceil>1 / q\<rceil> - 1"
  define k where "k = nat (bitlen m)"
  have "1 < 1 / q" using False assms by simp
  then have "1 < \<lceil>1 / q\<rceil>" by (simp add: less_ceiling_iff)
  then have mpos: "0 < m" by (simp add: m_def)
  then have "m < 2 ^ k" using bitlen_bounds [OF mpos] by (simp add: k_def)
  then have "\<lceil>1 / q\<rceil> \<le> 2 ^ k" by (simp add: m_def)
  then have "1 / q \<le> 2 ^ k" by (simp add: ceiling_le_iff)
  then have "1 \<le> 2 ^ k * q" using assms by (simp add: field_simps)
  then have "1 / 2 ^ k \<le> q" by (simp add: field_simps)
  moreover have "ilog2 q = - int k" using False bitlen_nonneg [of m] by (simp add: ilog2_def m_def k_def)
  ultimately show ?thesis by (simp add: power_int_minus field_simps)
qed

lemma ilog2_less: assumes "0 < q" and "q < 2 ^ n" shows "ilog2 q < int n"
proof (rule ccontr)
  assume "\<not> ilog2 q < int n"
  then have "int n \<le> ilog2 q" by simp
  then have "(2::rat) powi (int n) \<le> 2 powi (ilog2 q)" by (intro power_int_increasing) simp_all
  also have "\<dots> \<le> q" by (rule ilog2_le [OF assms(1)])
  finally show False using assms(2) by simp
qed

lemma round_half_even_of_int: "round_half_even (of_int z) = z"
  by (simp add: round_half_even_def)

lemma round_half_even_ge: "of_int z \<le> x \<Longrightarrow> z \<le> round_half_even x"
proof -
  assume "of_int z \<le> x"
  then have "z \<le> \<lfloor>x\<rfloor>" by (simp add: le_floor_iff)
  then show ?thesis by (simp add: round_half_even_def Let_def)
qed

lemma round_half_even_le: "x < of_int z + 1 / 2 \<Longrightarrow> round_half_even x \<le> z"
proof -
  assume a: "x < of_int z + 1 / 2"
  have f: "\<lfloor>x\<rfloor> \<le> z" using a by (simp add: floor_le_iff)
  show ?thesis
  proof (cases "\<lfloor>x\<rfloor> = z")
    case True
    then have "x - of_int \<lfloor>x\<rfloor> < 1 / 2" using a by simp
    then show ?thesis using True by (simp add: round_half_even_def Let_def)
  next
    case False
    then have "\<lfloor>x\<rfloor> + 1 \<le> z" using f by simp
    then show ?thesis by (auto simp: round_half_even_def Let_def)
  qed
qed

lemma divide_powi_nonpos: "e \<le> 0 \<Longrightarrow> (x::rat) / 2 powi e = x * 2 ^ nat (- e)"
  by (cases "e = 0") (simp_all add: power_int_def field_simps)

lemma times_powi_nonpos: "e \<le> 0 \<Longrightarrow> (x::rat) * 2 powi e = x / 2 ^ nat (- e)"
  by (cases "e = 0") (simp_all add: power_int_def field_simps)

lemma round_mag_exact:
  assumes "0 < a" and "a < 2 ^ 53" and "k \<le> 1074"
  shows "round_mag (of_int a / 2 ^ k) = of_int a / 2 ^ k"
proof -
  define q :: rat where "q = of_int a / 2 ^ k"
  define e where "e = max (ilog2 q - 52) (- 1074)"
  have qpos: "0 < q" using assms(1) by (simp add: q_def)
  have qa: "q * 2 ^ k = of_int a" by (simp add: q_def)
  have "of_int a < rat_of_int (2 ^ 53)" using assms(2) by (simp only: of_int_less_iff)
  then have qk: "q * 2 ^ k < 2 ^ 53" using qa by simp
  have "ilog2 q + int k < 53"
  proof (rule ccontr)
    assume "\<not> ilog2 q + int k < 53"
    then have "53 - int k \<le> ilog2 q" by simp
    then have "(2::rat) powi (53 - int k) \<le> 2 powi (ilog2 q)"
      by (intro power_int_increasing) simp_all
    also have "\<dots> \<le> q" by (rule ilog2_le [OF qpos])
    finally have "(2::rat) powi (53 - int k) \<le> q" .
    then have "(2::rat) ^ 53 / 2 ^ k \<le> q" by (simp add: power_int_diff)
    then have "(2::rat) ^ 53 \<le> q * 2 ^ k" by (simp add: field_simps)
    then show False using qk by simp
  qed
  then have ek: "e \<le> - int k" using assms(3) by (simp add: e_def)
  then have e0: "e \<le> 0" by simp
  define d where "d = nat (- e) - k"
  have dk: "nat (- e) = d + k" using ek by (simp add: d_def)
  have "q / 2 powi e = q * 2 ^ (d + k)" using e0 dk by (simp add: divide_powi_nonpos)
  also have "\<dots> = (q * 2 ^ k) * 2 ^ d" by (simp add: power_add)
  also have "\<dots> = of_int (a * 2 ^ d)" by (simp add: qa)
  finally have sc: "q / 2 powi e = of_int (a * 2 ^ d)" .
  have "rat_of_int (round_half_even (q / 2 powi e)) * 2 powi e = of_int (a * 2 ^ d) / 2 ^ (d + k)"
    using e0 dk by (simp only: sc round_half_even_of_int times_powi_nonpos)
  also have "\<dots> = q" by (simp add: q_def power_add)
  finally show ?thesis by (simp add: round_mag_def e_def q_def)
qed

lemma double_of_rat_pos:
  "0 < q \<Longrightarrow> round_mag q = r \<Longrightarrow> r < 2 ^ 1024 \<Longrightarrow> double_of_rat q = Finite r"
  by (simp add: double_of_rat_def)

lemma double_of_rat_neg:
  "q < 0 \<Longrightarrow> round_mag (- q) = r \<Longrightarrow> r < 2 ^ 1024 \<Longrightarrow> double_of_rat q = Finite (- r)"
  by (simp add: double_of_rat_def)

text \<open>A positive dyadic rational whose numerator fits 53 bits is a double: rounding
  returns it unchanged.\<close>

lemma double_of_rat_exact:
  assumes "0 < a" and "a < 2 ^ 53" and "k \<le> 1074"
  shows "double_of_rat (of_int a / 2 ^ k) = Finite (of_int a / 2 ^ k)"
proof -
  define q :: rat where "q = of_int a / 2 ^ k"
  have qpos: "0 < q" using assms(1) by (simp add: q_def)
  have "of_int a < rat_of_int (2 ^ 53)" using assms(2) by (simp only: of_int_less_iff)
  then have a53: "rat_of_int a < 2 ^ 53" by simp
  have "q * 1 \<le> q * 2 ^ k" using qpos by (intro mult_left_mono) simp_all
  then have "q \<le> of_int a" by (simp add: q_def)
  then have "q < 2 ^ 1024" using a53 by simp
  moreover have "round_mag q = q" unfolding q_def by (rule round_mag_exact [OF assms])
  ultimately show ?thesis using qpos unfolding q_def by (intro double_of_rat_pos) simp_all
qed

lemma double_of_int_exact:
  assumes "\<bar>n\<bar> < 2 ^ 53"
  shows "double_of_rat (of_int n) = Finite (of_int n)"
proof -
  consider "n = 0" | "0 < n" | "n < 0" by linarith
  then show ?thesis
  proof cases
    case 1
    then show ?thesis by (simp add: double_of_rat_def)
  next
    case 2
    then show ?thesis using double_of_rat_exact [of n 0] assms by simp
  next
    case 3
    then have "round_mag (of_int (- n) / 2 ^ 0) = of_int (- n) / 2 ^ 0"
      using assms by (intro round_mag_exact) simp_all
    then have r: "round_mag (- of_int n) = - of_int n" by simp
    have "- n < 2 ^ 53" using assms 3 by simp
    then have "rat_of_int (- n) < of_int (2 ^ 53)" by (simp only: of_int_less_iff)
    then have "- rat_of_int n < 2 ^ 1024" by simp
    then show ?thesis using 3 r double_of_rat_neg [of "of_int n" "- of_int n"] by simp
  qed
qed

lemma round_mag_fifth:
  assumes "0 < n" and "n < 2 ^ 52"
  shows "of_int (n div 5) \<le> round_mag (of_int n * (3602879701896397 / 2 ^ 54))
       \<and> round_mag (of_int n * (3602879701896397 / 2 ^ 54)) < of_int (n div 5) + 1"
proof -
  define q :: rat where "q = of_int n * (3602879701896397 / 2 ^ 54)"
  define k where "k = n div 5"
  define e where "e = max (ilog2 q - 52) (- 1074)"
  define w where "w = nat (- e)"
  define m where "m = round_half_even (q / 2 powi e)"
  have "rat_of_int 0 < of_int n" using assms(1) by (simp only: of_int_less_iff)
  then have npos: "0 < rat_of_int n" by simp
  have "rat_of_int n < of_int (2 ^ 52)" using assms(2) by (simp only: of_int_less_iff)
  then have nlt: "rat_of_int n < 2 ^ 52" by simp
  have "k * 5 \<le> n" and "n \<le> k * 5 + 4" unfolding k_def by presburger+
  then have "rat_of_int (k * 5) \<le> of_int n" and "rat_of_int n \<le> of_int (k * 5 + 4)"
    by (simp_all only: of_int_le_iff)
  then have k1: "rat_of_int k * 5 \<le> of_int n" and k2: "rat_of_int n \<le> of_int k * 5 + 4"
    by simp_all
  have qpos: "0 < q" using npos by (simp add: q_def)
  have qlo: "of_int k \<le> q" using k1 npos by (simp add: q_def)
  have qhi: "q \<le> of_int k + 17 / 20" using k2 nlt by (simp add: q_def)
  have q50: "q < 2 ^ 50" using nlt by (simp add: q_def)
  have "ilog2 q < int 50" by (rule ilog2_less [OF qpos q50])
  then have e3: "e \<le> - 3" by (simp add: e_def)
  then have w3: "3 \<le> w" by (simp add: w_def)
  have "(2::rat) ^ 3 \<le> 2 ^ w" using w3 by (intro power_increasing) simp_all
  then have P8: "(8::rat) \<le> 2 ^ w" by simp
  have sc: "q / 2 powi e = q * 2 ^ w" using e3 by (simp add: divide_powi_nonpos w_def)
  have "rat_of_int (k * 2 ^ w) \<le> q * 2 ^ w" using qlo by simp
  then have mlo: "k * 2 ^ w \<le> m" unfolding m_def sc by (rule round_half_even_ge)
  have "3 / 20 * 8 \<le> (of_int k + 1 - q) * 2 ^ w"
    using qhi P8 by (intro mult_mono) simp_all
  then have "q * 2 ^ w < of_int ((k + 1) * 2 ^ w - 1) + 1 / 2"
    by (simp add: algebra_simps)
  then have mhi: "m \<le> (k + 1) * 2 ^ w - 1" unfolding m_def sc by (rule round_half_even_le)
  have r: "round_mag q = of_int m / 2 ^ w"
    using e3 by (simp add: round_mag_def e_def [symmetric] m_def [symmetric] times_powi_nonpos w_def)
  have "rat_of_int (k * 2 ^ w) \<le> of_int m" using mlo by (simp only: of_int_le_iff)
  then have a: "of_int k \<le> rat_of_int m / 2 ^ w" by (simp add: field_simps)
  have "m < (k + 1) * 2 ^ w" using mhi by simp
  then have "rat_of_int m < of_int ((k + 1) * 2 ^ w)" by (simp only: of_int_less_iff)
  then have b: "rat_of_int m / 2 ^ w < of_int k + 1" by (simp add: field_simps)
  show ?thesis using a b r by (simp add: q_def k_def)
qed

section \<open>The recommendation engine: results\<close>

lemma float_lit_fifth:
  "float_lit (2 / 10) = Finite (3602879701896397 / 2 ^ 54)"
  "float_lit (1 / 5) = Finite (3602879701896397 / 2 ^ 54)"
  by (simp_all add: float_lit_def float_eval)

lemma float_lit_three_halves:
  "float_lit (15 / 10) = Finite (3 / 2)"
  "float_lit (3 / 2) = Finite (3 / 2)"
  by (simp_all add: float_lit_def float_eval)

lemma float_of_int_exact: "\<bar>n\<bar> < 2 ^ 53 \<Longrightarrow> float_of_int n = Inr (Finite (of_int n))"
  by (simp add: float_of_int_def double_of_int_exact)

lemma mul_fifth:
  assumes "0 \<le> pd" and "pd < 2 ^ 52"
  obtains x where "int_mul_float pd (float_lit (2 / 10)) = Inr x"
    and "int_of_float x = Inr (pd div 5)"
proof (cases "pd = 0")
  case True
  have "int_mul_float pd (float_lit (2 / 10)) = Inr (Finite 0)"
    using True by (simp add: int_mul_float_def float_of_int_exact float_lit_fifth double_of_rat_def)
  moreover have "int_of_float (Finite 0) = Inr (pd div 5)"
    using True by (simp add: int_of_float_def)
  ultimately show ?thesis by (rule that)
next
  case False
  then have pos: "0 < pd" using assms(1) by simp
  define q :: rat where "q = of_int pd * (3602879701896397 / 2 ^ 54)"
  define r where "r = round_mag q"
  have b: "of_int (pd div 5) \<le> r" "r < of_int (pd div 5) + 1"
    using round_mag_fifth [OF pos assms(2)] by (simp_all add: r_def q_def)
  have "0 \<le> pd div 5" using assms(1) by simp
  then have "rat_of_int 0 \<le> of_int (pd div 5)" by (simp only: of_int_le_iff)
  then have r0: "0 \<le> r" using b(1) by simp
  have "pd div 5 + 1 < 2 ^ 53" using assms by simp
  then have "rat_of_int (pd div 5 + 1) < of_int (2 ^ 53)" by (simp only: of_int_less_iff)
  then have "r < 2 ^ 53" using b(2) by simp
  then have rlt: "r < 2 ^ 1024" by simp
  have "rat_of_int 0 < of_int pd" using pos by (simp only: of_int_less_iff)
  then have qpos: "0 < q" by (simp add: q_def)
  have d: "double_of_rat q = Finite r"
    using qpos rlt by (intro double_of_rat_pos) (simp_all add: r_def)
  have "\<bar>pd\<bar> < 2 ^ 53" using assms by simp
  then have "int_mul_float pd (float_lit (2 / 10)) = Inr (Finite r)"
    using d by (simp add: int_mul_float_def float_of_int_exact float_lit_fifth q_def)
  moreover have "\<lfloor>r\<rfloor> = pd div 5" using b by (intro floor_unique) simp_all
  then have "int_of_float (Finite r) = Inr (pd div 5)" using r0 by (simp add: int_of_float_def)
  ultimately show ?thesis by (rule that)
qed

lemma mul_three_halves:
  assumes "0 \<le> m" and "3 * m < 2 ^ 53"
  shows "int_mul_float m (float_lit (15 / 10)) = Inr (Finite (of_int (3 * m) / 2))"
proof (cases "m = 0")
  case True
  then show ?thesis
    by (simp add: int_mul_float_def float_of_int_exact float_lit_three_halves double_of_rat_def)
next
  case False
  then have "0 < 3 * m" using assms(1) by simp
  then have "double_of_rat (of_int (3 * m) / 2 ^ 1) = Finite (of_int (3 * m) / 2 ^ 1)"
    using assms(2) by (intro double_of_rat_exact) simp_all
  moreover have "rat_of_int (3 * m) / 2 ^ 1 = of_int m * (3 / 2)" by simp
  ultimately have d: "double_of_rat (of_int m * (3 / 2)) = Finite (of_int m * (3 / 2))"
    by (simp only:)
  have v: "rat_of_int (3 * m) / 2 = of_int m * (3 / 2)" by simp
  have "\<bar>m\<bar> < 2 ^ 53" using assms by simp
  then show ?thesis
    unfolding v using d by (simp add: int_mul_float_def float_of_int_exact float_lit_three_halves)
qed

lemma gt_three_halves: "int_gt_float cs (Finite (of_int (3 * m) / 2)) \<longleftrightarrow> 3 * m < 2 * cs"
proof -
  have "3 * m < 2 * cs \<longleftrightarrow> rat_of_int (3 * m) < of_int (2 * cs)" by (simp only: of_int_less_iff)
  then show ?thesis by (simp add: int_gt_float_def field_simps)
qed

lemma round_mag_nonneg: "0 < q \<Longrightarrow> 0 \<le> round_mag q"
proof -
  assume "0 < q"
  define e where "e = max (ilog2 q - 52) (- 1074)"
  have "rat_of_int 0 \<le> q / 2 powi e" using \<open>0 < q\<close> by simp
  then have "0 \<le> round_half_even (q / 2 powi e)" by (rule round_half_even_ge)
  then have "rat_of_int 0 \<le> of_int (round_half_even (q / 2 powi e))" by (simp only: of_int_le_iff)
  then show ?thesis by (simp add: round_mag_def e_def [symmetric])
qed

lemma double_of_rat_pos_eq:
  "0 < q \<Longrightarrow>
     double_of_rat q = (if 2 ^ 1024 \<le> round_mag q then PosInf else Finite (round_mag q))"
  by (simp add: double_of_rat_def)

lemma double_of_rat_nonneg:
  assumes "0 \<le> q" and "double_of_rat q = Finite r"
  shows "0 \<le> r"
proof (cases "q = 0")
  case True
  then show ?thesis using assms(2) by (simp add: double_of_rat_def)
next
  case False
  then have pos: "0 < q" using assms(1) by simp
  have "r = round_mag q"
    using assms(2) unfolding double_of_rat_pos_eq [OF pos]
    by (cases "2 ^ 1024 \<le> round_mag q") simp_all
  then show ?thesis using round_mag_nonneg [OF pos] by simp
qed

lemma int_mul_float_Inr:
  assumes "int_mul_float n y = Inr x"
  obtains a where "double_of_rat (of_int n) = Finite a" and "x = float_mul (Finite a) y"
proof (cases "double_of_rat (of_int n)")
  case (Finite a)
  then have "x = float_mul (Finite a) y"
    using assms by (simp add: int_mul_float_def float_of_int_def)
  then show ?thesis using Finite that by blast
next
  case PosInf
  then show ?thesis using assms by (simp add: int_mul_float_def float_of_int_def)
next
  case NegInf
  then show ?thesis using assms by (simp add: int_mul_float_def float_of_int_def)
next
  case NaN
  then show ?thesis using assms by (simp add: int_mul_float_def float_of_int_def)
qed

lemma mul_fifth_nonneg:
  assumes "0 \<le> pd" and "int_mul_float pd (float_lit (2 / 10)) = Inr x"
    and "int_of_float x = Inr s"
  shows "0 \<le> s"
proof -
  obtain a where a: "double_of_rat (of_int pd) = Finite a"
    and x: "x = float_mul (Finite a) (float_lit (2 / 10))"
    using assms(2) by (rule int_mul_float_Inr)
  have "rat_of_int 0 \<le> of_int pd" using assms(1) by (simp only: of_int_le_iff)
  then have "0 \<le> rat_of_int pd" by simp
  then have "0 \<le> a" using a by (rule double_of_rat_nonneg)
  then have p: "0 \<le> a * (3602879701896397 / 2 ^ 54)" by simp
  obtain r where r: "x = Finite r" using assms(3) by (cases x) (simp_all add: int_of_float_def)
  have "double_of_rat (a * (3602879701896397 / 2 ^ 54)) = Finite r"
    using x r by (simp only: float_lit_fifth float_mul.simps)
  with p have "0 \<le> r" by (rule double_of_rat_nonneg)
  then show ?thesis using assms(3) r by (auto simp: int_of_float_def)
qed

lemma floor_fifth: "\<lfloor>rat_of_int pd * (2 / 10)\<rfloor> = pd div 5"
proof -
  have "rat_of_int pd * (2 / 10) = of_int pd / of_int 5" by simp
  then show ?thesis by (simp only: floor_divide_of_int_eq)
qed

lemma int_mul_float_small:
  "\<bar>m\<bar> < 2 ^ 53 \<Longrightarrow> int_mul_float m y = Inr (float_mul (Finite (of_int m)) y)"
  by (simp add: int_mul_float_def float_of_int_exact)

lemma str_limit_ge: "(2::int) ^ 64 \<le> 10 ^ int_max_str_digits"
proof -
  have "(2::int) ^ 64 \<le> 10 ^ 64" by (rule power_mono) simp_all
  also have "\<dots> \<le> 10 ^ int_max_str_digits"
    by (rule power_increasing) (simp_all add: int_max_str_digits_def)
  finally show ?thesis .
qed

lemma str_int_fits: "\<bar>i\<bar> < 10 ^ int_max_str_digits \<Longrightarrow> str_int i = Inr (int_digits i)"
  by (simp add: str_int_def)

lemma str_int_small: "\<bar>i\<bar> < 2 ^ 64 \<Longrightarrow> str_int i = Inr (int_digits i)"
  using str_limit_ge by (intro str_int_fits) linarith

lemma str_int_too_long: "str_int (10 ^ int_max_str_digits) = Inl ValueError"
  by (simp add: str_int_def)

text \<open>The engine on a predicted demand below \<open>2\<^sup>5\<^sup>2\<close>: the safety stock is the fifth,
  rounded down, and only the second product and the formatting remain.\<close>

lemma generate_recommendation_fifth:
  assumes "0 \<le> demand" and "demand < 2 ^ 52"
  shows "generate_recommendation stock demand seasn =
    (if stock < demand then
       (case str_int (demand + demand div 5 - stock) of
          Inl err \<Rightarrow> Inl err
        | Inr quantity_text \<Rightarrow>
            Inr \<lparr>decision = ADD_STOCK,
                 advice = ''Add '' @ quantity_text @ '' units'',
                 quantity_action = demand + demand div 5 - stock,
                 optimal_level = demand + demand div 5, reorder_point = demand,
                 safety_stock = demand div 5, required_stock = demand + demand div 5,
                 stock_gap = max 0 (demand + demand div 5 - stock)\<rparr>)
     else if int_gt_float stock
          (float_mul (Finite (of_int (demand + demand div 5))) (float_lit (15 / 10))) then
       (case str_int (stock - (demand + demand div 5)) of
          Inl err \<Rightarrow> Inl err
        | Inr quantity_text \<Rightarrow>
            Inr \<lparr>decision = REDUCE_STOCK,
                 advice = ''Reduce by '' @ quantity_text @ '' units'',
                 quantity_action = stock - (demand + demand div 5),
                 optimal_level = demand + demand div 5, reorder_point = demand,
                 safety_stock = demand div 5, required_stock = demand + demand div 5,
                 stock_gap = max 0 (demand + demand div 5 - stock)\<rparr>)
     else
       (case str_int stock of
          Inl err \<Rightarrow> Inl err
        | Inr stock_text \<Rightarrow>
            Inr \<lparr>decision = MAINTAIN,
                 advice = ''Maintain '' @ stock_text @ '' units'',
                 quantity_action = stock,
                 optimal_level = demand + demand div 5, reorder_point = demand,
                 safety_stock = demand div 5, required_stock = demand + demand div 5,
                 stock_gap = max 0 (demand + demand div 5 - stock)\<rparr>))"
proof -
  obtain x where x: "int_mul_float demand (float_lit (2 / 10)) = Inr x"
    and s: "int_of_float x = Inr (demand div 5)"
    using mul_fifth [OF assms] by blast
  have "\<bar>demand + demand div 5\<bar> < 2 ^ 53" using assms by simp
  note y = int_mul_float_small [OF this]
  show ?thesis
    unfolding generate_recommendation_def x sum.case s Let_def y
    by simp
qed

text \<open>Below \<open>2\<^sup>5\<^sup>1\<close> the second product is exact as well.\<close>

lemma generate_recommendation_exact:
  assumes "0 \<le> demand" and "demand < 2 ^ 51"
  shows "generate_recommendation stock demand seasn =
    (if stock < demand then
       (case str_int (demand + demand div 5 - stock) of
          Inl err \<Rightarrow> Inl err
        | Inr quantity_text \<Rightarrow>
            Inr \<lparr>decision = ADD_STOCK,
                 advice = ''Add '' @ quantity_text @ '' units'',
                 quantity_action = demand + demand div 5 - stock,
                 optimal_level = demand + demand div 5, reorder_point = demand,
                 safety_stock = demand div 5, required_stock = demand + demand div 5,
                 stock_gap = max 0 (demand + demand div 5 - stock)\<rparr>)
     else if 3 * (demand + demand div 5) < 2 * stock then
       (case str_int (stock - (demand + demand div 5)) of
          Inl err \<Rightarrow> Inl err
        | Inr quantity_text \<Rightarrow>
            Inr \<lparr>decision = REDUCE_STOCK,
                 advice = ''Reduce by '' @ quantity_text @ '' units'',
                 quantity_action = stock - (demand + demand div 5),
                 optimal_level = demand + demand div 5, reorder_point = demand,
                 safety_stock = demand div 5, required_stock = demand + demand div 5,
                 stock_gap = max 0 (demand + demand div 5 - stock)\<rparr>)
     else
       (case str_int stock of
          Inl err \<Rightarrow> Inl err
        | Inr stock_text \<Rightarrow>
            Inr \<lparr>decision = MAINTAIN,
                 advice = ''Maintain '' @ stock_text @ '' units'',
                 quantity_action = stock,
                 optimal_level = demand + demand div 5, reorder_point = demand,
                 safety_stock = demand div 5, required_stock = demand + demand div 5,
                 stock_gap = max 0 (demand + demand div 5 - stock)\<rparr>))"
proof -
  have lt52: "demand < 2 ^ 52" using assms(2) by simp
  have o0: "0 \<le> demand + demand div 5" and o1: "3 * (demand + demand div 5) < 2 ^ 53"
    and o2: "\<bar>demand + demand div 5\<bar> < 2 ^ 53"
    using assms by simp_all
  have "Inr (float_mul (Finite (of_int (demand + demand div 5))) (float_lit (15 / 10)))
      = (Inr (Finite (of_int (3 * (demand + demand div 5)) / 2)) :: py_error + pyfloat)"
    using mul_three_halves [OF o0 o1] unfolding int_mul_float_small [OF o2] .
  then have y: "float_mul (Finite (of_int (demand + demand div 5))) (float_lit (15 / 10))
      = Finite (of_int (3 * (demand + demand div 5)) / 2)" by simp
  show ?thesis
    unfolding generate_recommendation_fifth [OF assms(1) lt52] y gt_three_halves ..
qed

text \<open>The three integers that the engine formats fit the digit limit when the stock
  does.\<close>

lemma formatted_fit:
  assumes "0 \<le> stock" and "stock < 10 ^ int_max_str_digits"
    and "0 \<le> opt" and "opt < 2 ^ 53"
  shows "stock < opt \<Longrightarrow> str_int (opt - stock) = Inr (int_digits (opt - stock))"
    and "str_int (stock - opt) = Inr (int_digits (stock - opt))"
    and "str_int stock = Inr (int_digits stock)"
proof -
  have lim: "(2::int) ^ 53 < 10 ^ int_max_str_digits" using str_limit_ge by simp
  show "stock < opt \<Longrightarrow> str_int (opt - stock) = Inr (int_digits (opt - stock))"
    using assms lim by (intro str_int_fits) linarith
  show "str_int (stock - opt) = Inr (int_digits (stock - opt))"
    using assms lim by (intro str_int_fits) linarith
  show "str_int stock = Inr (int_digits stock)"
    using assms by (intro str_int_fits) linarith
qed

text \<open>
  Claim C1, for predicted demand below \<open>2\<^sup>5\<^sup>2\<close> and a stock of at most 4300 digits:
  for integers \<open>0 \<le> stock < 10\<^sup>4\<^sup>3\<^sup>0\<^sup>0\<close> and \<open>0 \<le> demand < 2\<^sup>5\<^sup>2\<close> the engine returns a
  recommendation whose safety stock is \<open>demand * 0.2\<close> rounded down, whose reorder point
  is the predicted demand, whose optimal level is their sum, whose required stock is the
  optimal level and whose stock gap is \<open>max(0, optimal_level - stock)\<close>.
\<close>

theorem recommendation_invariants:
  assumes "0 \<le> stock" and "stock < 10 ^ int_max_str_digits"
    and "0 \<le> demand" and "demand < 2 ^ 52"
  shows "\<exists>r. generate_recommendation stock demand seasn = Inr r
    \<and> safety_stock r = \<lfloor>rat_of_int demand * (2 / 10)\<rfloor>
    \<and> reorder_point r = demand
    \<and> optimal_level r = demand + safety_stock r
    \<and> required_stock r = optimal_level r
    \<and> stock_gap r = max 0 (optimal_level r - stock)"
proof -
  have o: "0 \<le> demand + demand div 5" "demand + demand div 5 < 2 ^ 53"
    using assms(3,4) by simp_all
  note f = formatted_fit [OF assms(1,2) o]
  show ?thesis
  proof (cases "stock < demand")
    case True
    then have "stock < demand + demand div 5" using assms(3) by simp
    then show ?thesis
      unfolding floor_fifth generate_recommendation_fifth [OF assms(3,4)]
      using True by (simp add: f(1))
  next
    case False
    then show ?thesis
      unfolding floor_fifth generate_recommendation_fifth [OF assms(3,4)]
      by (simp add: f(2,3))
  qed
qed

lemma small_fits_limit: "\<bar>i::int\<bar> < 2 ^ 64 \<Longrightarrow> i < 10 ^ int_max_str_digits"
  using str_limit_ge by linarith

theorem recommendation_invariants_witness:
  "\<exists>r. generate_recommendation 50 200 ''Summer'' = Inr r
    \<and> safety_stock r = 40 \<and> reorder_point r = 200
    \<and> optimal_level r = 200 + safety_stock r
    \<and> required_stock r = optimal_level r
    \<and> stock_gap r = max 0 (optimal_level r - 50)"
proof -
  have "(50::int) < 10 ^ int_max_str_digits" by (rule small_fits_limit) simp
  then show ?thesis
    using recommendation_invariants [of 50 200 "''Summer''"] by (simp add: floor_fifth)
qed

lemma float_of_int_overflow: "float_of_int (2 ^ 1024) = Inl OverflowError"
  by (simp add: float_of_int_def float_eval)

lemma float_of_int_3_2_51: "float_of_int 6755399441055744 = Inr (Finite 6755399441055744)"
  by (simp add: float_of_int_exact)

lemma float_mul_3_2_51:
  "float_mul (Finite 6755399441055744) (float_lit (2 / 10)) = Finite 1351079888211149"
  by (simp add: float_lit_def float_eval)

text \<open>
  Without the bound on the demand the statement of C1 fails: a predicted demand of
  \<open>2\<^sup>1\<^sup>0\<^sup>2\<^sup>4\<close> cannot be converted to a float and the call raises \<^verbatim>\<open>OverflowError\<close>;
  and at \<open>3 * 2\<^sup>5\<^sup>1 = 6755399441055744\<close> the float product
  \<^verbatim>\<open>predicted_demand * 0.2\<close> rounds up to an integer, one more than the fifth rounded
  down.
\<close>

theorem recommendation_invariants_counterexample:
  "generate_recommendation 0 (2 ^ 1024) ''Regular'' = Inl OverflowError
   \<and> map_sum id safety_stock (generate_recommendation 0 6755399441055744 ''Regular'')
       = Inr 1351079888211149
   \<and> \<lfloor>rat_of_int 6755399441055744 * (2 / 10)\<rfloor> = 1351079888211148"
proof (intro conjI)
  show "generate_recommendation 0 (2 ^ 1024) ''Regular'' = Inl OverflowError"
    unfolding generate_recommendation_def int_mul_float_def float_of_int_overflow by simp
  have t: "str_int (6755399441055744 + 1351079888211149 - 0)
      = Inr (int_digits (6755399441055744 + 1351079888211149 - 0))"
    by (rule str_int_small) simp
  show "map_sum id safety_stock (generate_recommendation 0 6755399441055744 ''Regular'')
       = Inr 1351079888211149"
    unfolding generate_recommendation_def int_mul_float_def float_of_int_3_2_51 sum.case
      float_mul_3_2_51
    by (simp add: int_of_float_def Let_def t [simplified])
  show "\<lfloor>rat_of_int 6755399441055744 * (2 / 10)\<rfloor> = 1351079888211148"
    unfolding floor_fifth by simp
qed

lemma decisions_distinct:
  "ADD_STOCK \<noteq> MAINTAIN" "REDUCE_STOCK \<noteq> MAINTAIN" "ADD_STOCK \<noteq> REDUCE_STOCK"
  "MAINTAIN \<noteq> ADD_STOCK" "MAINTAIN \<noteq> REDUCE_STOCK" "REDUCE_STOCK \<noteq> ADD_STOCK"
  by (simp_all add: ADD_STOCK_def MAINTAIN_def REDUCE_STOCK_def)

lemma rat_three_halves_less:
  "rat_of_int m * (15 / 10) < rat_of_int c \<longleftrightarrow> 3 * m < 2 * c"
proof -
  have "3 * m < 2 * c \<longleftrightarrow> rat_of_int (3 * m) < of_int (2 * c)" by (simp only: of_int_less_iff)
  then show ?thesis by (simp add: field_simps)
qed

lemma rat_three_halves_eq:
  "rat_of_int c = rat_of_int m * (15 / 10) \<longleftrightarrow> 2 * c = 3 * m"
proof -
  have "2 * c = 3 * m \<longleftrightarrow> rat_of_int (2 * c) = of_int (3 * m)" by (simp only: of_int_eq_iff)
  then show ?thesis by (simp add: field_simps)
qed

text \<open>
  Claim C2, for predicted demand below \<open>2\<^sup>5\<^sup>1\<close> and a stock of at most 4300 digits:
  for integers \<open>0 \<le> stock < 10\<^sup>4\<^sup>3\<^sup>0\<^sup>0\<close> and \<open>0 \<le> demand < 2\<^sup>5\<^sup>1\<close> a recommendation
  is returned and its decision is fixed by two strict comparisons.
  \<open>stock < reorder_point\<close> gives ADD STOCK with quantity
  \<open>optimal_level - stock\<close>; otherwise \<open>stock > optimal_level * 1.5\<close> gives
  REDUCE STOCK with quantity \<open>stock - optimal_level\<close>; otherwise MAINTAIN with
  quantity \<open>stock\<close>. At \<open>stock = reorder_point\<close> the decision is not
  ADD STOCK, and at \<open>stock = optimal_level * 1.5\<close> it is MAINTAIN. The products
  in the statement are exact (rational) products.
\<close>

theorem decision_by_strict_comparisons:
  assumes "0 \<le> stock" and "stock < 10 ^ int_max_str_digits"
    and "0 \<le> demand" and "demand < 2 ^ 51"
  shows "\<exists>r. generate_recommendation stock demand seasn = Inr r
    \<and> reorder_point r = demand
    \<and> optimal_level r = demand + demand div 5
    \<and> (stock < reorder_point r \<longrightarrow>
          decision r = ADD_STOCK \<and> quantity_action r = optimal_level r - stock)
    \<and> (\<not> stock < reorder_point r
          \<and> rat_of_int (optimal_level r) * (15 / 10) < rat_of_int stock \<longrightarrow>
          decision r = REDUCE_STOCK \<and> quantity_action r = stock - optimal_level r)
    \<and> (\<not> stock < reorder_point r
          \<and> \<not> rat_of_int (optimal_level r) * (15 / 10) < rat_of_int stock \<longrightarrow>
          decision r = MAINTAIN \<and> quantity_action r = stock)
    \<and> (stock = reorder_point r \<longrightarrow> decision r \<noteq> ADD_STOCK)
    \<and> (rat_of_int stock = rat_of_int (optimal_level r) * (15 / 10) \<longrightarrow>
          decision r = MAINTAIN)"
proof -
  define opt where "opt = demand + demand div 5"
  have o0: "0 \<le> opt" and o1: "opt < 2 ^ 53" and o2: "demand \<le> opt"
    using assms(3,4) by (simp_all add: opt_def)
  note f = formatted_fit [OF assms(1,2) o0 o1]
  show ?thesis
  proof (cases "stock < demand")
    case True
    then have "stock < opt" using o2 by simp
    then show ?thesis
      unfolding rat_three_halves_less rat_three_halves_eq
        generate_recommendation_exact [OF assms(3,4)] opt_def [symmetric]
      using True o2 assms(1) by (simp add: f(1) decisions_distinct)
  next
    case False
    then show ?thesis
      unfolding rat_three_halves_less rat_three_halves_eq
        generate_recommendation_exact [OF assms(3,4)] opt_def [symmetric]
      using o2 assms(1) by (simp add: f(2,3) decisions_distinct)
  qed
qed

text \<open>The two boundary examples of the specification: \<^verbatim>\<open>recommend(181, 100)\<close> and
  \<^verbatim>\<open>recommend(180, 100)\<close>.\<close>

theorem decision_by_strict_comparisons_witness:
  "(\<exists>r. generate_recommendation 181 100 ''Regular'' = Inr r
       \<and> decision r = REDUCE_STOCK \<and> quantity_action r = 61)
   \<and> (\<exists>r. generate_recommendation 180 100 ''Regular'' = Inr r
       \<and> decision r = MAINTAIN \<and> quantity_action r = 180)"
proof
  obtain r where g: "generate_recommendation 181 100 ''Regular'' = Inr r"
    and rp: "reorder_point r = 100" and ol: "optimal_level r = 100 + 100 div 5"
    and red: "\<not> 181 < reorder_point r
      \<and> rat_of_int (optimal_level r) * (15 / 10) < rat_of_int 181 \<longrightarrow>
      decision r = REDUCE_STOCK \<and> quantity_action r = 181 - optimal_level r"
    using decision_by_strict_comparisons [of 181 100 "''Regular''"]
      small_fits_limit [of 181] by fastforce
  have "decision r = REDUCE_STOCK \<and> quantity_action r = 61"
    using red by (simp add: rp ol)
  then show "\<exists>r. generate_recommendation 181 100 ''Regular'' = Inr r
       \<and> decision r = REDUCE_STOCK \<and> quantity_action r = 61"
    using g by simp
next
  obtain r where g: "generate_recommendation 180 100 ''Regular'' = Inr r"
    and rp: "reorder_point r = 100" and ol: "optimal_level r = 100 + 100 div 5"
    and mt: "\<not> 180 < reorder_point r
      \<and> \<not> rat_of_int (optimal_level r) * (15 / 10) < rat_of_int 180 \<longrightarrow>
      decision r = MAINTAIN \<and> quantity_action r = 180"
    using decision_by_strict_comparisons [of 180 100 "''Regular''"]
      small_fits_limit [of 180] by fastforce
  have "decision r = MAINTAIN \<and> quantity_action r = 180"
    using mt by (simp add: rp ol)
  then show "\<exists>r. generate_recommendation 180 100 ''Regular'' = Inr r
       \<and> decision r = MAINTAIN \<and> quantity_action r = 180"
    using g by simp
qed

lemma float_mul_fifth_c2:
  "float_mul (Finite 2501999792983611) (float_lit (2 / 10)) = Finite (2001599834386889 / 4)"
  by (simp add: float_lit_def float_eval)

lemma float_mul_three_halves_c2:
  "float_mul (Finite 3002399751580333) (float_lit (15 / 10)) = Finite 4503599627370500"
  "float_mul (Finite 3002399751580333) (float_lit (3 / 2)) = Finite 4503599627370500"
  by (simp_all add: float_lit_def float_eval)

lemma float_of_int_15_2_1020: "float_of_int (15 * 2 ^ 1020) = Inr (Finite (15 * 2 ^ 1020))"
  by (simp add: float_of_int_def float_eval)

lemma float_mul_fifth_15_2_1020:
  "float_mul (Finite (15 * 2 ^ 1020)) (float_lit (2 / 10)) = Finite (3 * 2 ^ 1020)"
  by (simp add: float_lit_def float_eval)

lemma float_of_int_18_2_1020: "float_of_int (15 * 2 ^ 1020 + 3 * 2 ^ 1020) = Inl OverflowError"
  by (simp add: float_of_int_def float_eval)

lemma generate_recommendation_overflow_second:
  "generate_recommendation (15 * 2 ^ 1020) (15 * 2 ^ 1020) ''Regular'' = Inl OverflowError"
proof -
  have b: "int_of_float (Finite (3 * 2 ^ 1020)) = Inr (3 * 2 ^ 1020)"
    by (simp add: int_of_float_def)
  show ?thesis
    unfolding generate_recommendation_def int_mul_float_def float_of_int_15_2_1020 sum.case
      float_mul_fifth_15_2_1020 b Let_def float_of_int_18_2_1020
    by simp
qed

text \<open>
  Without the bound the statement of C2 fails. With predicted demand 2501999792983611 the
  optimal level is 3002399751580333; its float product with 1.5 is rounded up to
  4503599627370500, so a current stock of 4503599627370500, which exceeds one and a half
  times the optimal level, is answered with MAINTAIN. And with both arguments
  \<open>15 * 2\<^sup>1\<^sup>0\<^sup>2\<^sup>0\<close> the optimal level is too large to convert to a float: the second
  comparison raises \<^verbatim>\<open>OverflowError\<close> and no decision is returned.
\<close>

theorem decision_by_strict_comparisons_counterexample:
  "map_sum id decision
      (generate_recommendation 4503599627370500 2501999792983611 ''Regular'') = Inr MAINTAIN
   \<and> map_sum id optimal_level
      (generate_recommendation 4503599627370500 2501999792983611 ''Regular'')
      = Inr 3002399751580333
   \<and> rat_of_int 3002399751580333 * (15 / 10) < rat_of_int 4503599627370500
   \<and> generate_recommendation (15 * 2 ^ 1020) (15 * 2 ^ 1020) ''Regular'' = Inl OverflowError"
proof -
  have a: "float_of_int 2501999792983611 = Inr (Finite 2501999792983611)"
    by (simp add: float_of_int_exact)
  have b: "int_of_float (Finite (2001599834386889 / 4)) = Inr 500399958596722"
    by (simp add: int_of_float_def floor_rat_numeral)
  have c: "float_of_int 3002399751580333 = Inr (Finite 3002399751580333)"
    by (simp add: float_of_int_exact)
  have d: "\<not> int_gt_float 4503599627370500 (Finite 4503599627370500)"
    by (simp add: int_gt_float_def)
  have g: "generate_recommendation 4503599627370500 2501999792983611 ''Regular'' =
      Inr \<lparr>decision = MAINTAIN,
           advice = ''Maintain '' @ int_digits 4503599627370500 @ '' units'',
           quantity_action = 4503599627370500,
           optimal_level = 3002399751580333, reorder_point = 2501999792983611,
           safety_stock = 500399958596722, required_stock = 3002399751580333,
           stock_gap = 0\<rparr>"
    unfolding generate_recommendation_def int_mul_float_def a sum.case float_mul_fifth_c2 b
    by (simp add: Let_def c int_mul_float_def float_mul_three_halves_c2 d
        str_int_small [of 4503599627370500])
  show ?thesis unfolding g generate_recommendation_overflow_second by simp
qed

lemma generate_recommendation_zero_demand:
  "generate_recommendation stock 0 seasn =
     (if stock < 0 then
        (case str_int (- stock) of
           Inl err \<Rightarrow> Inl err
         | Inr quantity_text \<Rightarrow>
             Inr \<lparr>decision = ADD_STOCK,
                  advice = ''Add '' @ quantity_text @ '' units'',
                  quantity_action = - stock,
                  optimal_level = 0, reorder_point = 0,
                  safety_stock = 0, required_stock = 0, stock_gap = max 0 (- stock)\<rparr>)
      else if 0 < stock then
        (case str_int stock of
           Inl err \<Rightarrow> Inl err
         | Inr quantity_text \<Rightarrow>
             Inr \<lparr>decision = REDUCE_STOCK,
                  advice = ''Reduce by '' @ quantity_text @ '' units'',
                  quantity_action = stock,
                  optimal_level = 0, reorder_point = 0,
                  safety_stock = 0, required_stock = 0, stock_gap = max 0 (- stock)\<rparr>)
      else
        (case str_int stock of
           Inl err \<Rightarrow> Inl err
         | Inr stock_text \<Rightarrow>
             Inr \<lparr>decision = MAINTAIN,
                  advice = ''Maintain '' @ stock_text @ '' units'',
                  quantity_action = stock,
                  optimal_level = 0, reorder_point = 0,
                  safety_stock = 0, required_stock = 0, stock_gap = max 0 (- stock)\<rparr>))"
  using generate_recommendation_exact [of 0 stock seasn] by (simp cong: sum.case_cong)

lemma add_stock_quantity_positive:
  assumes "0 \<le> stock"
    and "generate_recommendation stock demand seasn = Inr r"
    and "decision r = ADD_STOCK"
  shows "0 < quantity_action r"
proof (cases "int_mul_float demand (float_lit (2 / 10))")
  case (Inl err)
  then show ?thesis using assms(2) by (simp add: generate_recommendation_def)
next
  case (Inr x)
  note x = this
  show ?thesis
  proof (cases "int_of_float x")
    case (Inl err)
    then show ?thesis using assms(2) x by (simp add: generate_recommendation_def)
  next
    case (Inr s)
    note s = this
    show ?thesis
    proof (cases "stock < demand")
      case True
      then have "0 \<le> demand" using assms(1) by simp
      then have "0 \<le> s" using x s by (rule mul_fifth_nonneg)
      moreover have "quantity_action r = demand + s - stock"
        using assms(2) True unfolding generate_recommendation_def x sum.case s Let_def
        by (auto split: sum.splits)
      ultimately show ?thesis using True by simp
    next
      case False
      have "decision r \<noteq> ADD_STOCK"
        using assms(2) False unfolding generate_recommendation_def x sum.case s Let_def
        by (auto simp add: decisions_distinct split: sum.splits if_splits)
      then show ?thesis using assms(3) by simp
    qed
  qed
qed

text \<open>
  Claim C7, as the code behaves: with \<open>predicted_demand = 0\<close> and a stock
  \<open>0 \<le> stock < 10\<^sup>4\<^sup>3\<^sup>0\<^sup>0\<close> the engine returns safety stock 0 and optimal level 0 and
  never decides ADD STOCK; the decision is MAINTAIN with quantity 0 when \<open>stock = 0\<close>
  and REDUCE STOCK with quantity \<open>stock\<close> when \<open>stock > 0\<close>. Whenever the engine
  returns ADD STOCK for a \<open>stock \<ge> 0\<close> (and any predicted demand), the quantity is
  positive.
\<close>

theorem zero_demand_never_adds:
  assumes "0 \<le> stock"
  shows "(stock < 10 ^ int_max_str_digits \<longrightarrow>
      (\<exists>r. generate_recommendation stock 0 seasn = Inr r
        \<and> safety_stock r = 0 \<and> optimal_level r = 0 \<and> decision r \<noteq> ADD_STOCK
        \<and> (stock = 0 \<longrightarrow> decision r = MAINTAIN \<and> quantity_action r = 0)
        \<and> (0 < stock \<longrightarrow> decision r = REDUCE_STOCK \<and> quantity_action r = stock)))
    \<and> (\<forall>demand r.
          generate_recommendation stock demand seasn = Inr r
          \<and> decision r = ADD_STOCK \<longrightarrow> 0 < quantity_action r)"
proof (intro conjI impI)
  assume lim: "stock < 10 ^ int_max_str_digits"
  have f: "str_int stock = Inr (int_digits stock)"
    using assms lim by (intro str_int_fits) simp
  show "\<exists>r. generate_recommendation stock 0 seasn = Inr r
        \<and> safety_stock r = 0 \<and> optimal_level r = 0 \<and> decision r \<noteq> ADD_STOCK
        \<and> (stock = 0 \<longrightarrow> decision r = MAINTAIN \<and> quantity_action r = 0)
        \<and> (0 < stock \<longrightarrow> decision r = REDUCE_STOCK \<and> quantity_action r = stock)"
    unfolding generate_recommendation_zero_demand f sum.case using assms
    by (simp add: decisions_distinct)
next
  show "\<forall>demand r.
          generate_recommendation stock demand seasn = Inr r
          \<and> decision r = ADD_STOCK \<longrightarrow> 0 < quantity_action r"
    using add_stock_quantity_positive [OF assms] by blast
qed

theorem zero_demand_never_adds_witness:
  "(\<exists>r. generate_recommendation 0 0 ''Regular'' = Inr r
      \<and> safety_stock r = 0 \<and> optimal_level r = 0
      \<and> decision r = MAINTAIN \<and> quantity_action r = 0)
   \<and> (\<exists>r. generate_recommendation 7 0 ''Regular'' = Inr r
      \<and> safety_stock r = 0 \<and> optimal_level r = 0
      \<and> decision r = REDUCE_STOCK \<and> quantity_action r = 7)"
proof
  show "\<exists>r. generate_recommendation 0 0 ''Regular'' = Inr r
      \<and> safety_stock r = 0 \<and> optimal_level r = 0
      \<and> decision r = MAINTAIN \<and> quantity_action r = 0"
    using zero_demand_never_adds [of 0 "''Regular''"] small_fits_limit [of 0] by fastforce
  show "\<exists>r. generate_recommendation 7 0 ''Regular'' = Inr r
      \<and> safety_stock r = 0 \<and> optimal_level r = 0
      \<and> decision r = REDUCE_STOCK \<and> quantity_action r = 7"
    using zero_demand_never_adds [of 7 "''Regular''"] small_fits_limit [of 7] by fastforce
qed

text \<open>
  C7 as stated (MAINTAIN for every \<open>current_stock \<ge> 0\<close> when the predicted demand is 0)
  fails: \<^verbatim>\<open>recommend(5, 0)\<close> is REDUCE STOCK with quantity 5, because
  \<open>5 > 0 * 1.5\<close>.
\<close>

theorem zero_demand_never_adds_counterexample:
  "map_sum id decision (generate_recommendation 5 0 ''Regular'') = Inr REDUCE_STOCK
   \<and> map_sum id quantity_action (generate_recommendation 5 0 ''Regular'') = Inr 5
   \<and> REDUCE_STOCK \<noteq> MAINTAIN"
  unfolding generate_recommendation_zero_demand
  by (simp add: decisions_distinct str_int_small [of 5])

text \<open>The path that the bound on the stock excludes: a stock of 4301 digits with
  predicted demand 0 is formatted into the advice, which raises.\<close>

lemma generate_recommendation_too_many_digits:
  "generate_recommendation (10 ^ int_max_str_digits) 0 seasn = Inl ValueError"
  unfolding generate_recommendation_zero_demand by (simp add: str_int_too_long)

section \<open>The stock predictor: results\<close>

lemma default_factor_products:
  "int_mul_float 100 (float_lit (13 / 10)) = Inr (Finite 130)"
  "int_mul_float 100 (float_lit (9 / 10)) = Inr (Finite 90)"
  "int_mul_float 100 (float_lit (12 / 10)) = Inr (Finite 120)"
  "int_mul_float 100 (float_lit (10 / 10)) = Inr (Finite 100)"
  by (simp_all add: int_mul_float_small float_lit_def float_eval)

lemma int_of_float_nat: "int_of_float (Finite (numeral k)) = Inr (numeral k)"
  by (simp add: int_of_float_def)

lemma find_None_name:
  "nm \<notin> name ` set ps \<Longrightarrow> find (\<lambda>p. name p = nm) ps = None"
  by (induction ps) auto

lemma default_factor_products_nf:
  "int_mul_float 100 (float_lit (6 / 5)) = Inr (Finite 120)"
  "int_mul_float 100 (float_lit 1) = Inr (Finite 100)"
  by (simp_all add: int_mul_float_small float_lit_def float_eval)

lemma get_default_prediction_value:
  "get_default_prediction product_name stock seasn =
     (case generate_recommendation stock
        (if seasn = ''Summer'' then 130 else if seasn = ''Winter'' then 90
         else if seasn = ''Monsoon'' then 120 else 100) seasn of
        Inl err \<Rightarrow> Inl err
      | Inr recomm \<Rightarrow>
          Inr \<lparr>product = product_name, category = ''Miscellaneous'',
               current_stock = stock, season = seasn,
               predicted_demand =
                 (if seasn = ''Summer'' then 130 else if seasn = ''Winter'' then 90
                  else if seasn = ''Monsoon'' then 120 else 100),
               seasonal_multiplier =
                 (if seasn = ''Summer'' then float_lit (13 / 10)
                  else if seasn = ''Winter'' then float_lit (9 / 10)
                  else if seasn = ''Monsoon'' then float_lit (12 / 10)
                  else float_lit (10 / 10)),
               recommendation = recomm, price = PyInt 0, unit = ''pack''\<rparr>)"
  by (simp add: get_default_prediction_def dict_get_def default_factor_products
      default_factor_products_nf int_of_float_nat Let_def cong: sum.case_cong)

lemma generate_recommendation_returns:
  assumes "0 \<le> demand" and "demand < 2 ^ 51"
    and "\<bar>stock\<bar> + (demand + demand div 5) < 10 ^ int_max_str_digits"
  shows "\<exists>r. generate_recommendation stock demand seasn = Inr r"
proof -
  have o: "0 \<le> demand + demand div 5" using assms(1) by simp
  have f1: "str_int (demand + demand div 5 - stock)
      = Inr (int_digits (demand + demand div 5 - stock))"
    using assms(3) o by (intro str_int_fits) linarith
  have f2: "str_int (stock - (demand + demand div 5))
      = Inr (int_digits (stock - (demand + demand div 5)))"
    using assms(3) o by (intro str_int_fits) linarith
  have f3: "str_int stock = Inr (int_digits stock)"
    using assms(3) o by (intro str_int_fits) linarith
  show ?thesis
    unfolding generate_recommendation_exact [OF assms(1,2)] f1 f2 f3 by simp
qed

text \<open>
  Claim C4: for a product name that no catalog entry carries, the predictor takes the
  fallback path. The factor depends on the season only (Summer 1.3, Winter 0.9,
  Monsoon 1.2, Regular 1.0, any other season 1.0), the predicted demand is
  \<open>100 * factor\<close> rounded down, the category is "Miscellaneous", the price 0 and the unit
  "pack", and the recommendation is the engine's answer for that stock and demand: so
  for every prediction that is returned. A prediction is returned whenever the stock,
  of either sign, leaves the formatted quantity within 4300 digits
  (\<open>\<bar>stock\<bar> + 156 < 10\<^sup>4\<^sup>3\<^sup>0\<^sup>0\<close>).
\<close>

theorem unknown_product_fallback:
  assumes "product_name \<notin> name ` set (products_data self)"
  shows "predict_stock_requirement self product_name stock seasn
       = get_default_prediction product_name stock seasn
    \<and> (\<forall>p. predict_stock_requirement self product_name stock seasn = Inr p \<longrightarrow>
          seasonal_multiplier p =
            (if seasn = ''Summer'' then float_lit (13 / 10)
             else if seasn = ''Winter'' then float_lit (9 / 10)
             else if seasn = ''Monsoon'' then float_lit (12 / 10)
             else float_lit (10 / 10))
        \<and> predicted_demand p =
            (if seasn = ''Summer'' then \<lfloor>100 * (13 / 10 :: rat)\<rfloor>
             else if seasn = ''Winter'' then \<lfloor>100 * (9 / 10 :: rat)\<rfloor>
             else if seasn = ''Monsoon'' then \<lfloor>100 * (12 / 10 :: rat)\<rfloor>
             else \<lfloor>100 * (10 / 10 :: rat)\<rfloor>)
        \<and> category p = ''Miscellaneous'' \<and> price p = PyInt 0 \<and> unit p = ''pack''
        \<and> product p = product_name \<and> current_stock p = stock \<and> season p = seasn
        \<and> generate_recommendation stock (predicted_demand p) seasn = Inr (recommendation p))
    \<and> (\<bar>stock\<bar> + 156 < 10 ^ int_max_str_digits \<longrightarrow>
        (\<exists>p. predict_stock_requirement self product_name stock seasn = Inr p))"
proof -
  define d :: int where "d = (if seasn = ''Summer'' then 130 else if seasn = ''Winter'' then 90
         else if seasn = ''Monsoon'' then 120 else 100)"
  have d0: "0 \<le> d" and d1: "d < 2 ^ 51" and d2: "d + d div 5 \<le> 156"
    by (simp_all add: d_def)
  have nf: "find (\<lambda>p. name p = product_name) (products_data self) = None"
    using assms by (rule find_None_name)
  have fl: "\<lfloor>100 * (13 / 10 :: rat)\<rfloor> = 130" "\<lfloor>100 * (9 / 10 :: rat)\<rfloor> = 90"
    "\<lfloor>100 * (12 / 10 :: rat)\<rfloor> = 120" "\<lfloor>100 * (10 / 10 :: rat)\<rfloor> = 100"
    by simp_all
  have eq: "predict_stock_requirement self product_name stock seasn
       = get_default_prediction product_name stock seasn"
    unfolding predict_stock_requirement_def nf option.case ..
  have fields: "\<forall>p. get_default_prediction product_name stock seasn = Inr p \<longrightarrow>
          seasonal_multiplier p =
            (if seasn = ''Summer'' then float_lit (13 / 10)
             else if seasn = ''Winter'' then float_lit (9 / 10)
             else if seasn = ''Monsoon'' then float_lit (12 / 10)
             else float_lit (10 / 10))
        \<and> predicted_demand p = d
        \<and> category p = ''Miscellaneous'' \<and> price p = PyInt 0 \<and> unit p = ''pack''
        \<and> product p = product_name \<and> current_stock p = stock \<and> season p = seasn
        \<and> generate_recommendation stock (predicted_demand p) seasn = Inr (recommendation p)"
    unfolding get_default_prediction_value d_def [symmetric]
    by (cases "generate_recommendation stock d seasn") auto
  have returns: "\<bar>stock\<bar> + 156 < 10 ^ int_max_str_digits \<longrightarrow>
        (\<exists>p. get_default_prediction product_name stock seasn = Inr p)"
  proof
    assume "\<bar>stock\<bar> + 156 < 10 ^ int_max_str_digits"
    then have "\<bar>stock\<bar> + (d + d div 5) < 10 ^ int_max_str_digits" using d2 by linarith
    then obtain recomm where "generate_recommendation stock d seasn = Inr recomm"
      using generate_recommendation_returns [OF d0 d1] by blast
    then show "\<exists>p. get_default_prediction product_name stock seasn = Inr p"
      unfolding get_default_prediction_value d_def [symmetric] by simp
  qed
  show ?thesis
    unfolding eq fl d_def [symmetric] using fields returns by blast
qed

text \<open>The example of the specification:
  \<^verbatim>\<open>predict("Unknown Widget", 10, "Winter")\<close>.\<close>

theorem unknown_product_fallback_witness:
  "\<exists>p. predict_stock_requirement
         \<lparr>seasonal_patterns = get_default_seasonal_patterns,
          products_data = [\<lparr>name = ''Milk 1L'', category = Some ''Dairy'',
                            current_price = Some (PyInt 60), unit = Some ''pack''\<rparr>]\<rparr>
         ''Unknown Widget'' 10 ''Winter'' = Inr p
     \<and> predicted_demand p = 90 \<and> category p = ''Miscellaneous''
     \<and> price p = PyInt 0 \<and> unit p = ''pack''
     \<and> safety_stock (recommendation p) = 18 \<and> optimal_level (recommendation p) = 108
     \<and> reorder_point (recommendation p) = 90
     \<and> decision (recommendation p) = ADD_STOCK
     \<and> quantity_action (recommendation p) = 98"
proof -
  define self where "self = \<lparr>seasonal_patterns = get_default_seasonal_patterns,
          products_data = [\<lparr>name = ''Milk 1L'', category = Some ''Dairy'',
                            current_price = Some (PyInt 60), unit = Some ''pack''\<rparr>]\<rparr>"
  have nm: "''Unknown Widget'' \<notin> name ` set (products_data self)" by (simp add: self_def)
  have lim: "\<bar>10\<bar> + 156 < (10::int) ^ int_max_str_digits"
    using small_fits_limit [of 166] by simp
  note t = unknown_product_fallback [OF nm, of 10 "''Winter''"]
  from t lim obtain p
    where p: "predict_stock_requirement self ''Unknown Widget'' 10 ''Winter'' = Inr p"
    by blast
  from t p have d': "predicted_demand p =
            (if ''Winter'' = ''Summer'' then \<lfloor>100 * (13 / 10 :: rat)\<rfloor>
             else if ''Winter'' = ''Winter'' then \<lfloor>100 * (9 / 10 :: rat)\<rfloor>
             else if ''Winter'' = ''Monsoon'' then \<lfloor>100 * (12 / 10 :: rat)\<rfloor>
             else \<lfloor>100 * (10 / 10 :: rat)\<rfloor>)"
    and c: "category p = ''Miscellaneous''" "price p = PyInt 0" "unit p = ''pack''"
    and g: "generate_recommendation 10 (predicted_demand p) ''Winter'' = Inr (recommendation p)"
    by blast+
  have d: "predicted_demand p = 90" using d' by simp
  have "generate_recommendation 10 90 ''Winter'' = Inr (recommendation p)"
    using g by (simp only: d)
  then have "recommendation p =
       \<lparr>decision = ADD_STOCK, advice = ''Add '' @ int_digits 98 @ '' units'',
        quantity_action = 98, optimal_level = 108, reorder_point = 90,
        safety_stock = 18, required_stock = 108, stock_gap = 98\<rparr>"
    by (simp add: generate_recommendation_exact [of 90 10 "''Winter''"] str_int_small [of 98])
  then show ?thesis using p d c unfolding self_def by simp
qed

text \<open>
  Claim C6: the base-demand lookup is total. It returns the table value for each of the
  ten categories of the table and 100 for every other category string; it has no error
  result.
\<close>

theorem category_base_demand_total:
  "get_category_base_demand ''Groceries'' = 150
   \<and> get_category_base_demand ''Dairy'' = 200
   \<and> get_category_base_demand ''Beverages'' = 180
   \<and> get_category_base_demand ''Fruits'' = 120
   \<and> get_category_base_demand ''Vegetables'' = 140
   \<and> get_category_base_demand ''Personal Care'' = 90
   \<and> get_category_base_demand ''Snacks'' = 160
   \<and> get_category_base_demand ''Frozen'' = 80
   \<and> get_category_base_demand ''Condiments'' = 70
   \<and> get_category_base_demand ''Miscellaneous'' = 100
   \<and> (cat \<notin> {''Groceries'', ''Dairy'', ''Beverages'', ''Fruits'', ''Vegetables'',
          ''Personal Care'', ''Snacks'', ''Frozen'', ''Condiments'', ''Miscellaneous''}
        \<longrightarrow> get_category_base_demand cat = 100)"
  by (simp add: get_category_base_demand_def dict_get_def)

theorem category_base_demand_total_witness:
  "get_category_base_demand ''Toys'' = 100 \<and> get_category_base_demand ''dairy'' = 100"
  using category_base_demand_total [of "''Toys''"] category_base_demand_total [of "''dairy''"]
  by simp

lemma float_lit_one: "float_lit (10 / 10) = Finite 1" "float_lit 1 = Finite 1"
  by (simp_all add: float_lit_def float_eval)

text \<open>
  Claim C5: the seasonal multiplier lookup is total over all pairs of strings. For a
  season of the table and a category of that season's sub-table it returns the configured
  value; if the season is missing, or the category is missing from the season's
  sub-table, it returns 1.0. For the built-in table this gives the twenty configured
  values and 1.0 everywhere else; keys are compared exactly, so \<open>''summer''\<close> is not a
  season of the table.
\<close>

theorem seasonal_multiplier_total:
  "(\<forall>sub v. patterns seasn = Some sub \<and> sub cat = Some v \<longrightarrow>
       seasonal_multiplier_lookup patterns seasn cat = v)
   \<and> (patterns seasn = None \<longrightarrow>
       seasonal_multiplier_lookup patterns seasn cat = float_lit (10 / 10))
   \<and> (\<forall>sub. patterns seasn = Some sub \<and> sub cat = None \<longrightarrow>
       seasonal_multiplier_lookup patterns seasn cat = float_lit (10 / 10))
   \<and> float_lit (10 / 10) = Finite 1
   \<and> seasonal_multiplier_lookup get_default_seasonal_patterns seasn cat =
       (if seasn = ''Summer'' then
          (if cat = ''Beverages'' then float_lit (15 / 10)
           else if cat = ''Fruits'' then float_lit (14 / 10)
           else if cat = ''Vegetables'' then float_lit (13 / 10)
           else if cat = ''Groceries'' then float_lit (10 / 10)
           else if cat = ''Personal Care'' then float_lit (12 / 10)
           else float_lit (10 / 10))
        else if seasn = ''Winter'' then
          (if cat = ''Beverages'' then float_lit (8 / 10)
           else if cat = ''Fruits'' then float_lit (9 / 10)
           else if cat = ''Vegetables'' then float_lit (12 / 10)
           else if cat = ''Groceries'' then float_lit (11 / 10)
           else if cat = ''Personal Care'' then float_lit (10 / 10)
           else float_lit (10 / 10))
        else if seasn = ''Monsoon'' then
          (if cat = ''Beverages'' then float_lit (12 / 10)
           else if cat = ''Fruits'' then float_lit (11 / 10)
           else if cat = ''Vegetables'' then float_lit (10 / 10)
           else if cat = ''Groceries'' then float_lit (13 / 10)
           else if cat = ''Personal Care'' then float_lit (14 / 10)
           else float_lit (10 / 10))
        else if seasn = ''Regular'' then
          (if cat = ''Beverages'' then float_lit (10 / 10)
           else if cat = ''Fruits'' then float_lit (10 / 10)
           else if cat = ''Vegetables'' then float_lit (10 / 10)
           else if cat = ''Groceries'' then float_lit (10 / 10)
           else if cat = ''Personal Care'' then float_lit (10 / 10)
           else float_lit (10 / 10))
        else float_lit (10 / 10))"
proof (intro conjI)
  show "\<forall>sub v. patterns seasn = Some sub \<and> sub cat = Some v \<longrightarrow>
       seasonal_multiplier_lookup patterns seasn cat = v"
    by (simp add: seasonal_multiplier_lookup_def dict_get_def)
  show "patterns seasn = None \<longrightarrow>
       seasonal_multiplier_lookup patterns seasn cat = float_lit (10 / 10)"
    by (simp add: seasonal_multiplier_lookup_def dict_get_def)
  show "\<forall>sub. patterns seasn = Some sub \<and> sub cat = None \<longrightarrow>
       seasonal_multiplier_lookup patterns seasn cat = float_lit (10 / 10)"
    by (simp add: seasonal_multiplier_lookup_def dict_get_def)
  show "float_lit (10 / 10) = Finite 1" by (rule float_lit_one)
  show "seasonal_multiplier_lookup get_default_seasonal_patterns seasn cat =
       (if seasn = ''Summer'' then
          (if cat = ''Beverages'' then float_lit (15 / 10)
           else if cat = ''Fruits'' then float_lit (14 / 10)
           else if cat = ''Vegetables'' then float_lit (13 / 10)
           else if cat = ''Groceries'' then float_lit (10 / 10)
           else if cat = ''Personal Care'' then float_lit (12 / 10)
           else float_lit (10 / 10))
        else if seasn = ''Winter'' then
          (if cat = ''Beverages'' then float_lit (8 / 10)
           else if cat = ''Fruits'' then float_lit (9 / 10)
           else if cat = ''Vegetables'' then float_lit (12 / 10)
           else if cat = ''Groceries'' then float_lit (11 / 10)
           else if cat = ''Personal Care'' then float_lit (10 / 10)
           else float_lit (10 / 10))
        else if seasn = ''Monsoon'' then
          (if cat = ''Beverages'' then float_lit (12 / 10)
           else if cat = ''Fruits'' then float_lit (11 / 10)
           else if cat = ''Vegetables'' then float_lit (10 / 10)
           else if cat = ''Groceries'' then float_lit (13 / 10)
           else if cat = ''Personal Care'' then float_lit (14 / 10)
           else float_lit (10 / 10))
        else if seasn = ''Regular'' then
          (if cat = ''Beverages'' then float_lit (10 / 10)
           else if cat = ''Fruits'' then float_lit (10 / 10)
           else if cat = ''Vegetables'' then float_lit (10 / 10)
           else if cat = ''Groceries'' then float_lit (10 / 10)
           else if cat = ''Personal Care'' then float_lit (10 / 10)
           else float_lit (10 / 10))
        else float_lit (10 / 10))"
    by (simp add: seasonal_multiplier_lookup_def get_default_seasonal_patterns_def dict_get_def)
qed

theorem seasonal_multiplier_total_witness:
  "seasonal_multiplier_lookup get_default_seasonal_patterns ''Summer'' ''Beverages''
     = Finite (3 / 2)
   \<and> seasonal_multiplier_lookup get_default_seasonal_patterns ''summer'' ''Beverages'' = Finite 1
   \<and> seasonal_multiplier_lookup get_default_seasonal_patterns ''Summer'' ''Dairy'' = Finite 1
   \<and> seasonal_multiplier_lookup [''Festive'' \<mapsto> [''Snacks'' \<mapsto> Finite 2]]
        ''Festive'' ''Snacks'' = Finite 2
   \<and> seasonal_multiplier_lookup [''Festive'' \<mapsto> [''Snacks'' \<mapsto> Finite 2]]
        ''Festive'' ''Dairy'' = Finite 1
   \<and> seasonal_multiplier_lookup [''Festive'' \<mapsto> [''Snacks'' \<mapsto> Finite 2]]
        ''Summer'' ''Snacks'' = Finite 1"
  using seasonal_multiplier_total [of _ "''Summer''" "''Beverages''"]
    seasonal_multiplier_total [of _ "''summer''" "''Beverages''"]
    seasonal_multiplier_total [of _ "''Summer''" "''Dairy''"]
    seasonal_multiplier_total [of "[''Festive'' \<mapsto> [''Snacks'' \<mapsto> Finite 2]]" "''Festive''" "''Snacks''"]
    seasonal_multiplier_total [of "[''Festive'' \<mapsto> [''Snacks'' \<mapsto> Finite 2]]" "''Festive''" "''Dairy''"]
    seasonal_multiplier_total [of "[''Festive'' \<mapsto> [''Snacks'' \<mapsto> Finite 2]]" "''Summer''" "''Snacks''"]
  by (simp add: float_lit_three_halves float_lit_one)

section \<open>The request handler and the chatbot fallback: results\<close>

lemma str_contains_iff: "str_contains key s \<longleftrightarrow> (\<exists>pre post. s = pre @ key @ post)"
proof (induction s)
  case Nil
  then show ?case by auto
next
  case (Cons c cs)
  show ?case
  proof
    assume "str_contains key (c # cs)"
    then consider "take (length key) (c # cs) = key" | "str_contains key cs" by auto
    then show "\<exists>pre post. c # cs = pre @ key @ post"
    proof cases
      case 1
      then have "c # cs = [] @ key @ drop (length key) (c # cs)"
        by (metis append_Nil append_take_drop_id)
      then show ?thesis by blast
    next
      case 2
      then obtain pre post where "cs = pre @ key @ post" using Cons.IH by blast
      then have "c # cs = (c # pre) @ key @ post" by simp
      then show ?thesis by blast
    qed
  next
    assume "\<exists>pre post. c # cs = pre @ key @ post"
    then obtain pre post where e: "c # cs = pre @ key @ post" by blast
    show "str_contains key (c # cs)"
    proof (cases pre)
      case Nil
      then have "take (length key) (c # cs) = key" using e by simp
      then show ?thesis by simp
    next
      case (Cons a pre')
      then have "cs = pre' @ key @ post" using e by simp
      then have "str_contains key cs" using Cons.IH by blast
      then show ?thesis by simp
    qed
  qed
qed

lemma first_match_None_iff:
  "first_match tbl q = None \<longleftrightarrow> (\<forall>i<length tbl. \<not> str_contains (fst (tbl ! i)) q)"
proof (induction tbl)
  case Nil
  then show ?case by simp
next
  case (Cons kv rest)
  obtain k v where kv: "kv = (k, v)" by (cases kv)
  show ?case
  proof (cases "str_contains k q")
    case True
    then have "\<not> (\<forall>i<length (kv # rest). \<not> str_contains (fst ((kv # rest) ! i)) q)"
      using kv by (auto intro: exI [of _ 0])
    then show ?thesis using True kv by simp
  next
    case False
    have "(\<forall>i<length (kv # rest). \<not> str_contains (fst ((kv # rest) ! i)) q)
        \<longleftrightarrow> (\<forall>i<length rest. \<not> str_contains (fst (rest ! i)) q)"
      using False kv by (auto simp: nth_Cons split: nat.splits)
    then show ?thesis using False kv Cons.IH by simp
  qed
qed

lemma first_match_Some:
  assumes "i < length tbl" and "str_contains (fst (tbl ! i)) q"
    and "\<forall>j<i. \<not> str_contains (fst (tbl ! j)) q"
  shows "first_match tbl q = Some (snd (tbl ! i))"
  using assms
proof (induction tbl arbitrary: i)
  case Nil
  then show ?case by simp
next
  case (Cons kv rest)
  obtain k v where kv: "kv = (k, v)" by (cases kv)
  show ?case
  proof (cases i)
    case 0
    then show ?thesis using Cons.prems(2) kv by simp
  next
    case (Suc n)
    have nk: "\<not> str_contains k q" using Cons.prems(3) Suc kv by force
    have "n < length rest" using Cons.prems(1) Suc by simp
    moreover have "str_contains (fst (rest ! n)) q" using Cons.prems(2) Suc by simp
    moreover have "\<forall>j<n. \<not> str_contains (fst (rest ! j)) q"
    proof (intro allI impI)
      fix j assume "j < n"
      then have "Suc j < i" using Suc by simp
      then have "\<not> str_contains (fst ((kv # rest) ! Suc j)) q" using Cons.prems(3) by blast
      then show "\<not> str_contains (fst (rest ! j)) q" by simp
    qed
    ultimately have "first_match rest q = Some (snd (rest ! n))" by (rule Cons.IH)
    then show ?thesis using nk kv Suc by simp
  qed
qed

lemma first_match_in: "first_match tbl q = Some r \<Longrightarrow> r \<in> snd ` set tbl"
proof (induction tbl)
  case Nil
  then show ?case by simp
next
  case (Cons kv rest)
  obtain k v where kv: "kv = (k, v)" by (cases kv)
  show ?case using Cons kv by (cases "str_contains k q") auto
qed

lemma responses_nonempty: "[] \<notin> snd ` set responses"
  by (simp add: responses_def)

lemma keywords_nonempty: "[] \<notin> snd ` set keywords_table"
  by (simp add: keywords_table_def)

lemma default_response_nonempty: "default_response \<noteq> []"
  by (simp add: default_response_def)

lemma get_fallback_response_nonempty: "get_fallback_response str_lower query \<noteq> []"
proof (cases "first_match responses (str_lower query)")
  case (Some r)
  then have "r \<noteq> []" using first_match_in [OF Some] responses_nonempty by metis
  then show ?thesis using Some by (simp add: get_fallback_response_def)
next
  case None
  note n1 = this
  show ?thesis
  proof (cases "first_match keywords_table (str_lower query)")
    case (Some r)
    then have "r \<noteq> []" using first_match_in [OF Some] keywords_nonempty by metis
    then show ?thesis using Some n1 by (simp add: get_fallback_response_def)
  next
    case None
    then show ?thesis using n1 default_response_nonempty by (simp add: get_fallback_response_def)
  qed
qed

text \<open>
  Claim C9: the keyword fallback is total and its answer is never empty, for every query
  and whatever \<^verbatim>\<open>str.lower()\<close> maps it to. The lowercased query is matched by substring
  containment against the keys of the phrase table in their order, and the first key
  contained decides; if no phrase is contained the keyword table is searched in the same
  way; if no key of either table is contained the fixed default message is the answer.
  Two queries with the same lowercase form get the same answer. Containment is the
  existence of a prefix and a suffix around the key.
\<close>

theorem fallback_response_total:
  "get_fallback_response str_lower query \<noteq> []
   \<and> (\<forall>i<length responses.
         str_contains (fst (responses ! i)) (str_lower query)
         \<and> (\<forall>j<i. \<not> str_contains (fst (responses ! j)) (str_lower query))
         \<longrightarrow> get_fallback_response str_lower query = snd (responses ! i))
   \<and> (\<forall>i<length keywords_table.
         (\<forall>j<length responses. \<not> str_contains (fst (responses ! j)) (str_lower query))
         \<and> str_contains (fst (keywords_table ! i)) (str_lower query)
         \<and> (\<forall>j<i. \<not> str_contains (fst (keywords_table ! j)) (str_lower query))
         \<longrightarrow> get_fallback_response str_lower query = snd (keywords_table ! i))
   \<and> ((\<forall>j<length responses. \<not> str_contains (fst (responses ! j)) (str_lower query))
        \<and> (\<forall>j<length keywords_table.
              \<not> str_contains (fst (keywords_table ! j)) (str_lower query))
        \<longrightarrow> get_fallback_response str_lower query = default_response)
   \<and> (\<forall>other. str_lower other = str_lower query
        \<longrightarrow> get_fallback_response str_lower other = get_fallback_response str_lower query)
   \<and> (\<forall>key s. str_contains key s \<longleftrightarrow> (\<exists>pre post. s = pre @ key @ post))"
proof (intro conjI allI impI)
  show "get_fallback_response str_lower query \<noteq> []" by (rule get_fallback_response_nonempty)
next
  fix i
  assume "i < length responses"
    and "str_contains (fst (responses ! i)) (str_lower query)
         \<and> (\<forall>j<i. \<not> str_contains (fst (responses ! j)) (str_lower query))"
  then have "first_match responses (str_lower query) = Some (snd (responses ! i))"
    by (intro first_match_Some) simp_all
  then show "get_fallback_response str_lower query = snd (responses ! i)"
    by (simp add: get_fallback_response_def)
next
  fix i
  assume i: "i < length keywords_table"
    and h: "(\<forall>j<length responses. \<not> str_contains (fst (responses ! j)) (str_lower query))
         \<and> str_contains (fst (keywords_table ! i)) (str_lower query)
         \<and> (\<forall>j<i. \<not> str_contains (fst (keywords_table ! j)) (str_lower query))"
  have n: "first_match responses (str_lower query) = None"
    using h by (simp add: first_match_None_iff)
  have "first_match keywords_table (str_lower query) = Some (snd (keywords_table ! i))"
    using i h by (intro first_match_Some) simp_all
  then show "get_fallback_response str_lower query = snd (keywords_table ! i)"
    using n by (simp add: get_fallback_response_def)
next
  assume h: "(\<forall>j<length responses. \<not> str_contains (fst (responses ! j)) (str_lower query))
        \<and> (\<forall>j<length keywords_table.
              \<not> str_contains (fst (keywords_table ! j)) (str_lower query))"
  have "first_match responses (str_lower query) = None"
    using h by (simp add: first_match_None_iff)
  moreover have "first_match keywords_table (str_lower query) = None"
    using h by (simp add: first_match_None_iff)
  ultimately show "get_fallback_response str_lower query = default_response"
    by (simp add: get_fallback_response_def)
next
  fix other
  assume "str_lower other = str_lower query"
  then show "get_fallback_response str_lower other = get_fallback_response str_lower query"
    by (simp add: get_fallback_response_def)
next
  fix key s
  show "str_contains key s \<longleftrightarrow> (\<exists>pre post. s = pre @ key @ post)"
    by (rule str_contains_iff)
qed

lemma all_below_takeI:
  "list_all P (take i tbl) \<Longrightarrow> i \<le> length tbl \<Longrightarrow> \<forall>j<i. P (tbl ! j)"
  by (auto simp: list_all_length)

lemma lower_hello: "ascii_lower ''HELLO there'' = ''hello there''"
  by code_simp

lemma lower_dairy: "ascii_lower ''Any DAIRY?'' = ''any dairy?''"
  by code_simp

lemma lower_xyz: "ascii_lower ''xyz'' = ''xyz''"
  by code_simp

text \<open>Three ASCII queries, on which \<^verbatim>\<open>str.lower()\<close> is \<open>ascii_lower\<close>.\<close>

theorem fallback_response_total_witness:
  "get_fallback_response ascii_lower ''HELLO there'' = snd (responses ! 10)
   \<and> fst (responses ! 10) = ''hello''
   \<and> get_fallback_response ascii_lower ''Any DAIRY?'' = snd (keywords_table ! 0)
   \<and> fst (keywords_table ! 0) = ''dairy''
   \<and> get_fallback_response ascii_lower ''xyz'' = default_response
   \<and> get_fallback_response ascii_lower ''hello there'' = get_fallback_response ascii_lower ''HELLO there''"
proof (intro conjI)
  have len: "length responses = 13" "length keywords_table = 7"
    by (simp_all add: responses_def keywords_table_def)
  have a: "\<forall>j<10. \<not> str_contains (fst (responses ! j)) ''hello there''"
  proof (rule all_below_takeI [where P = "\<lambda>kv. \<not> str_contains (fst kv) ''hello there''"])
    show "list_all (\<lambda>kv. \<not> str_contains (fst kv) ''hello there'') (take 10 responses)"
      by (simp add: responses_def)
    show "10 \<le> length responses" by (simp add: len)
  qed
  have b: "str_contains (fst (responses ! 10)) ''hello there''"
    by (simp add: responses_def)
  show "get_fallback_response ascii_lower ''HELLO there'' = snd (responses ! 10)"
    using fallback_response_total [of ascii_lower "''HELLO there''", THEN conjunct2, THEN conjunct1,
        rule_format, of 10] a b
    by (simp only: lower_hello len; simp)
  show "fst (responses ! 10) = ''hello''" by (simp add: responses_def)
  have c: "\<forall>j<13. \<not> str_contains (fst (responses ! j)) ''any dairy?''"
  proof (rule all_below_takeI [where P = "\<lambda>kv. \<not> str_contains (fst kv) ''any dairy?''"])
    show "list_all (\<lambda>kv. \<not> str_contains (fst kv) ''any dairy?'') (take 13 responses)"
      by (simp add: responses_def)
    show "13 \<le> length responses" by (simp add: len)
  qed
  have d: "str_contains (fst (keywords_table ! 0)) ''any dairy?''"
    by (simp add: keywords_table_def)
  show "get_fallback_response ascii_lower ''Any DAIRY?'' = snd (keywords_table ! 0)"
    using fallback_response_total [of ascii_lower "''Any DAIRY?''", THEN conjunct2, THEN conjunct2,
        THEN conjunct1, rule_format, of 0] c d
    by (simp only: lower_dairy len; simp)
  show "fst (keywords_table ! 0) = ''dairy''" by (simp add: keywords_table_def)
  have e: "\<forall>j<13. \<not> str_contains (fst (responses ! j)) ''xyz''"
  proof (rule all_below_takeI [where P = "\<lambda>kv. \<not> str_contains (fst kv) ''xyz''"])
    show "list_all (\<lambda>kv. \<not> str_contains (fst kv) ''xyz'') (take 13 responses)"
      by (simp add: responses_def)
    show "13 \<le> length responses" by (simp add: len)
  qed
  have f: "\<forall>j<7. \<not> str_contains (fst (keywords_table ! j)) ''xyz''"
  proof (rule all_below_takeI [where P = "\<lambda>kv. \<not> str_contains (fst kv) ''xyz''"])
    show "list_all (\<lambda>kv. \<not> str_contains (fst kv) ''xyz'') (take 7 keywords_table)"
      by (simp add: keywords_table_def)
    show "7 \<le> length keywords_table" by (simp add: len)
  qed
  show "get_fallback_response ascii_lower ''xyz'' = default_response"
    using fallback_response_total [of ascii_lower "''xyz''", THEN conjunct2, THEN conjunct2,
        THEN conjunct2, THEN conjunct1] e f
    by (simp only: lower_xyz len; simp)
  have "ascii_lower ''hello there'' = ascii_lower ''HELLO there''" by code_simp
  then show "get_fallback_response ascii_lower ''hello there'' = get_fallback_response ascii_lower ''HELLO there''"
    using fallback_response_total [of ascii_lower "''HELLO there''"] by blast
qed

text \<open>
  A query that is not ASCII: \<^verbatim>\<open>stoc\<close> followed by the Kelvin sign U+212A (UTF-8 bytes
  226, 132, 170), which \<^verbatim>\<open>str.lower()\<close> maps to \<^verbatim>\<open>'stock'\<close>. With a lowercase function
  that does so, the fallback gives the answer of the keyword \<^verbatim>\<open>'stock'\<close>.
\<close>

lemma fallback_response_kelvin_sign:
  "get_fallback_response
     (\<lambda>t. if t = ''stoc'' @ [char_of (226::nat), char_of (132::nat), char_of (170::nat)]
          then ''stock'' else ascii_lower t)
     (''stoc'' @ [char_of (226::nat), char_of (132::nat), char_of (170::nat)])
   = snd (keywords_table ! 5)
   \<and> fst (keywords_table ! 5) = ''stock''"
proof -
  have n: "first_match responses ''stock'' = None"
    by (simp add: responses_def)
  have k: "first_match keywords_table ''stock'' = Some (snd (keywords_table ! 5))"
    by (simp add: keywords_table_def)
  have f: "fst (keywords_table ! 5) = ''stock''" by (simp add: keywords_table_def)
  show ?thesis
    unfolding get_fallback_response_def Let_def using n k f by simp
qed

lemma api_analyze_Invoked_iff:
  "api_analyze str_to_int data = Invoked p n s \<longleftrightarrow>
     (\<exists>m v. data = JObject m \<and> m ''product'' = Some p \<and> m ''season'' = Some s
        \<and> m ''stock'' = Some v \<and> int_of_json str_to_int v = Inr n)"
proof (cases data)
  case (JObject m)
  show ?thesis
  proof (cases "m ''product''")
    case None
    then show ?thesis using JObject by (simp add: api_analyze_def)
  next
    case (Some p')
    note p' = this
    show ?thesis
    proof (cases "m ''season''")
      case None
      then show ?thesis using JObject p' by (simp add: api_analyze_def)
    next
      case (Some s')
      note s' = this
      show ?thesis
      proof (cases "m ''stock''")
        case None
        then show ?thesis using JObject p' s' by (simp add: api_analyze_def)
      next
        case (Some v)
        show ?thesis
        proof (cases "int_of_json str_to_int v")
          case (Inl err)
          then show ?thesis using JObject p' s' Some
            by (cases err) (simp_all add: api_analyze_def)
        next
          case (Inr k)
          then show ?thesis using JObject p' s' Some
            by (auto simp: api_analyze_def)
        qed
      qed
    qed
  qed
qed (simp_all add: api_analyze_def)

text \<open>
  Claim C3, as the code behaves. The predictor is called exactly when the body is a JSON
  object that has the three fields and \<^verbatim>\<open>int()\<close> converts the stock; it is then called
  with \<^verbatim>\<open>int(stock)\<close>, an integer: an integer stock of either sign is passed unchanged
  and a float is truncated toward zero. An object with a missing field is rejected with
  status 400, and so is one whose stock \<^verbatim>\<open>int()\<close> refuses with \<^verbatim>\<open>ValueError\<close> or
  \<^verbatim>\<open>TypeError\<close> (null, a list, an object, NaN, a string that is no integer). A body
  that is a string or a list is rejected with status 400; for a body that is null, a
  number or a boolean the \<^verbatim>\<open>TypeError\<close> of the field test escapes the handler.
\<close>

theorem analyze_validation:
  "(\<forall>p n s. api_analyze str_to_int data = Invoked p n s \<longleftrightarrow>
       (\<exists>m v. data = JObject m \<and> m ''product'' = Some p \<and> m ''season'' = Some s
          \<and> m ''stock'' = Some v \<and> int_of_json str_to_int v = Inr n))
   \<and> (\<forall>m. data = JObject m
        \<and> (m ''product'' = None \<or> m ''season'' = None \<or> m ''stock'' = None)
      \<longrightarrow> api_analyze str_to_int data = Rejected 400 ''Missing required fields'')
   \<and> (\<forall>m p s v. data = JObject m
        \<and> m ''product'' = Some p \<and> m ''season'' = Some s \<and> m ''stock'' = Some v
        \<and> (int_of_json str_to_int v = Inl ValueError \<or> int_of_json str_to_int v = Inl TypeError)
      \<longrightarrow> api_analyze str_to_int data = Rejected 400 ''Invalid stock value'')
   \<and> (data = JNull \<or> (\<exists>b. data = JBool b) \<or> (\<exists>k. data = JInt k) \<or> (\<exists>x. data = JFloat x)
      \<longrightarrow> api_analyze str_to_int data = Escaped TypeError)
   \<and> ((\<exists>t. data = JString t) \<or> (\<exists>xs. data = JArray xs)
      \<longrightarrow> api_analyze str_to_int data = Rejected 400 ''Invalid stock value''
        \<or> api_analyze str_to_int data = Rejected 400 ''Missing required fields'')
   \<and> (\<forall>k. int_of_json str_to_int (JInt k) = Inr k)
   \<and> (\<forall>r. 0 \<le> r \<longrightarrow> int_of_json str_to_int (JFloat (Finite r)) = Inr \<lfloor>r\<rfloor>)
   \<and> (\<forall>r. r < 0 \<longrightarrow> int_of_json str_to_int (JFloat (Finite r)) = Inr \<lceil>r\<rceil>)
   \<and> (\<forall>t. int_of_json str_to_int (JString t) = str_to_int t)
   \<and> int_of_json str_to_int (JFloat NaN) = Inl ValueError
   \<and> int_of_json str_to_int (JFloat PosInf) = Inl OverflowError
   \<and> int_of_json str_to_int JNull = Inl TypeError
   \<and> (\<forall>xs. int_of_json str_to_int (JArray xs) = Inl TypeError)
   \<and> (\<forall>m. int_of_json str_to_int (JObject m) = Inl TypeError)"
proof (intro conjI allI impI)
  fix p n s
  show "api_analyze str_to_int data = Invoked p n s \<longleftrightarrow>
       (\<exists>m v. data = JObject m \<and> m ''product'' = Some p \<and> m ''season'' = Some s
          \<and> m ''stock'' = Some v \<and> int_of_json str_to_int v = Inr n)"
    by (rule api_analyze_Invoked_iff)
next
  fix m
  assume "data = JObject m
        \<and> (m ''product'' = None \<or> m ''season'' = None \<or> m ''stock'' = None)"
  then show "api_analyze str_to_int data = Rejected 400 ''Missing required fields''"
    by (auto simp: api_analyze_def split: option.splits)
next
  fix m p s v
  assume "data = JObject m
        \<and> m ''product'' = Some p \<and> m ''season'' = Some s \<and> m ''stock'' = Some v
        \<and> (int_of_json str_to_int v = Inl ValueError \<or> int_of_json str_to_int v = Inl TypeError)"
  then show "api_analyze str_to_int data = Rejected 400 ''Invalid stock value''"
    by (auto simp: api_analyze_def)
next
  assume "data = JNull \<or> (\<exists>b. data = JBool b) \<or> (\<exists>k. data = JInt k) \<or> (\<exists>x. data = JFloat x)"
  then show "api_analyze str_to_int data = Escaped TypeError"
    by (auto simp: api_analyze_def)
next
  assume "(\<exists>t. data = JString t) \<or> (\<exists>xs. data = JArray xs)"
  then show "api_analyze str_to_int data = Rejected 400 ''Invalid stock value''
        \<or> api_analyze str_to_int data = Rejected 400 ''Missing required fields''"
    by (auto simp: api_analyze_def split: if_splits)
qed (simp_all add: int_of_float_def)

text \<open>No stock of the next requests is a string, so the conversion of strings does not
  matter for them; it is instantiated by a function that refuses every string.\<close>

theorem analyze_validation_witness:
  "api_analyze (\<lambda>t. Inl ValueError)
       (JObject [''product'' \<mapsto> JString ''Milk 1L'', ''season'' \<mapsto> JString ''Summer''])
     = Rejected 400 ''Missing required fields''
   \<and> api_analyze (\<lambda>t. Inl ValueError)
       (JObject [''product'' \<mapsto> JString ''Milk 1L'', ''season'' \<mapsto> JString ''Summer'',
          ''stock'' \<mapsto> JNull]) = Rejected 400 ''Invalid stock value''
   \<and> api_analyze (\<lambda>t. Inl ValueError)
       (JObject [''product'' \<mapsto> JString ''Milk 1L'', ''season'' \<mapsto> JString ''Summer'',
          ''stock'' \<mapsto> JInt 50]) = Invoked (JString ''Milk 1L'') 50 (JString ''Summer'')
   \<and> api_analyze (\<lambda>t. Inl ValueError) JNull = Escaped TypeError"
proof (intro conjI)
  show "api_analyze (\<lambda>t. Inl ValueError)
       (JObject [''product'' \<mapsto> JString ''Milk 1L'', ''season'' \<mapsto> JString ''Summer''])
     = Rejected 400 ''Missing required fields''"
    using analyze_validation [of "\<lambda>t. Inl ValueError"
        "JObject [''product'' \<mapsto> JString ''Milk 1L'', ''season'' \<mapsto> JString ''Summer'']"]
    by simp
  show "api_analyze (\<lambda>t. Inl ValueError)
       (JObject [''product'' \<mapsto> JString ''Milk 1L'', ''season'' \<mapsto> JString ''Summer'',
          ''stock'' \<mapsto> JNull]) = Rejected 400 ''Invalid stock value''"
    using analyze_validation [of "\<lambda>t. Inl ValueError"
        "JObject [''product'' \<mapsto> JString ''Milk 1L'', ''season'' \<mapsto> JString ''Summer'',
          ''stock'' \<mapsto> JNull]"]
    by simp
  show "api_analyze (\<lambda>t. Inl ValueError)
       (JObject [''product'' \<mapsto> JString ''Milk 1L'', ''season'' \<mapsto> JString ''Summer'',
          ''stock'' \<mapsto> JInt 50]) = Invoked (JString ''Milk 1L'') 50 (JString ''Summer'')"
    using analyze_validation [of "\<lambda>t. Inl ValueError"
        "JObject [''product'' \<mapsto> JString ''Milk 1L'', ''season'' \<mapsto> JString ''Summer'',
          ''stock'' \<mapsto> JInt 50]"]
    by simp
  show "api_analyze (\<lambda>t. Inl ValueError) JNull = Escaped TypeError"
    using analyze_validation [of "\<lambda>t. Inl ValueError" JNull] by simp
qed

text \<open>
  C3 as stated fails: the body \<^verbatim>\<open>{"product": "Milk 1L", "season": "Summer", "stock": -5}\<close>
  reaches the predictor with stock \<open>-5\<close>, and the non-integer stock 3.5 reaches it as 3.
  The handler has no test of the sign.
\<close>

theorem analyze_validation_counterexample:
  "api_analyze (\<lambda>t. Inl ValueError)
       (JObject [''product'' \<mapsto> JString ''Milk 1L'', ''season'' \<mapsto> JString ''Summer'',
          ''stock'' \<mapsto> JInt (- 5)])
     = Invoked (JString ''Milk 1L'') (- 5) (JString ''Summer'')
   \<and> api_analyze (\<lambda>t. Inl ValueError)
       (JObject [''product'' \<mapsto> JString ''Milk 1L'', ''season'' \<mapsto> JString ''Summer'',
          ''stock'' \<mapsto> JFloat (Finite (7 / 2))])
     = Invoked (JString ''Milk 1L'') 3 (JString ''Summer'')"
  by (simp add: api_analyze_def int_of_float_def floor_rat_numeral)


section \<open>Analytics: what reaches the caller\<close>

text \<open>A fault among the eight statements is a fault at one of the positions 0 to 7.\<close>

lemma ex_less_8:
  "(\<exists>k<8. P (k::nat)) \<longleftrightarrow> P 0 \<or> P 1 \<or> P 2 \<or> P 3 \<or> P 4 \<or> P 5 \<or> P 6 \<or> P 7"
proof
  assume "\<exists>k<8. P k"
  then obtain k where k: "k < 8" and p: "P k" by blast
  from k consider "k = 0" | "k = 1" | "k = 2" | "k = 3" | "k = 4" | "k = 5" | "k = 6" | "k = 7"
    by linarith
  then show "P 0 \<or> P 1 \<or> P 2 \<or> P 3 \<or> P 4 \<or> P 5 \<or> P 6 \<or> P 7"
    using p by cases simp_all
next
  assume "P 0 \<or> P 1 \<or> P 2 \<or> P 3 \<or> P 4 \<or> P 5 \<or> P 6 \<or> P 7"
  then show "\<exists>k<8. P k" by force
qed

lemma analytics_queries_fault:
  assumes "\<exists>k<8. k \<in> set (conn_faults conn)"
  shows "analytics_queries conn = Inl OperationalError"
  using assms unfolding ex_less_8
  by (auto simp add: analytics_queries_def Let_def and_then_def execute_def)

lemma analytics_queries_ok:
  assumes "\<not> (\<exists>k<8. k \<in> set (conn_faults conn))"
  shows "\<exists>summary. analytics_queries conn = Inr summary"
  using assms unfolding ex_less_8
  by (simp add: analytics_queries_def Let_def and_then_def execute_def)

text \<open>
  Claim C8, as the code behaves. Once the connection is open, \<^verbatim>\<open>get_analytics_data\<close>
  returns and raises nothing: if one of its eight statements fails it returns the empty
  dictionary \<^verbatim>\<open>{}\<close> (\<open>None\<close>), and if none fails it returns the full summary. For an
  empty history, whatever order the engine gives to tied rows, the summary has zero counts,
  empty frequency maps and empty lists.
\<close>

theorem analytics_degrades_gracefully:
  "(\<exists>res. get_analytics_data (Openable conn) = Inr res
      \<and> ((\<exists>k<8. k \<in> set (conn_faults conn)) \<longrightarrow> res = None)
      \<and> (\<not> (\<exists>k<8. k \<in> set (conn_faults conn)) \<longrightarrow> res \<noteq> None))
   \<and> get_analytics_data
        (Openable \<lparr>conn_db = \<lparr>inventory_analysis = [], chatbot_conversations = []\<rparr>,
                   conn_faults = [], conn_group_rank = group_rank,
                   conn_row_rank = row_rank\<rparr>)
       = Inr (Some \<lparr>total_analyses = 0, categories = Map.empty, seasons = Map.empty,
                     decisions = Map.empty, top_products = [], recent_analyses = [],
                     total_chats = 0, chat_sources = Map.empty\<rparr>)"
proof
  show "\<exists>res. get_analytics_data (Openable conn) = Inr res
      \<and> ((\<exists>k<8. k \<in> set (conn_faults conn)) \<longrightarrow> res = None)
      \<and> (\<not> (\<exists>k<8. k \<in> set (conn_faults conn)) \<longrightarrow> res \<noteq> None)"
  proof (cases "\<exists>k<8. k \<in> set (conn_faults conn)")
    case True
    then show ?thesis
      using analytics_queries_fault [OF True]
      by (simp add: get_analytics_data_def get_db_connection_def)
  next
    case False
    then obtain summary where "analytics_queries conn = Inr summary"
      using analytics_queries_ok by blast
    then show ?thesis
      using False by (simp add: get_analytics_data_def get_db_connection_def)
  qed
  show "get_analytics_data
        (Openable \<lparr>conn_db = \<lparr>inventory_analysis = [], chatbot_conversations = []\<rparr>,
                   conn_faults = [], conn_group_rank = group_rank,
                   conn_row_rank = row_rank\<rparr>)
       = Inr (Some \<lparr>total_analyses = 0, categories = Map.empty, seasons = Map.empty,
                     decisions = Map.empty, top_products = [], recent_analyses = [],
                     total_chats = 0, chat_sources = Map.empty\<rparr>)"
    by (simp add: get_analytics_data_def get_db_connection_def analytics_queries_def Let_def
        and_then_def execute_def count_groups_def not_null_def top_counts_def most_recent_def)
qed

text \<open>
  A connection whose fourth statement fails gives the empty dictionary; the same empty
  history without a failing statement gives the summary of zeros.
\<close>

theorem analytics_degrades_gracefully_witness:
  "get_analytics_data
      (Openable \<lparr>conn_db = \<lparr>inventory_analysis = [], chatbot_conversations = []\<rparr>,
                 conn_faults = [3], conn_group_rank = (\<lambda>k. 0), conn_row_rank = (\<lambda>i. 0)\<rparr>)
     = Inr None
   \<and> get_analytics_data
      (Openable \<lparr>conn_db = \<lparr>inventory_analysis = [], chatbot_conversations = []\<rparr>,
                 conn_faults = [], conn_group_rank = (\<lambda>k. 0), conn_row_rank = (\<lambda>i. 0)\<rparr>)
     = Inr (Some \<lparr>total_analyses = 0, categories = Map.empty, seasons = Map.empty,
                   decisions = Map.empty, top_products = [], recent_analyses = [],
                   total_chats = 0, chat_sources = Map.empty\<rparr>)"
proof
  have "\<exists>k<8. k \<in> set [3::nat]" by (intro exI [of _ 3]) simp
  then show "get_analytics_data
      (Openable \<lparr>conn_db = \<lparr>inventory_analysis = [], chatbot_conversations = []\<rparr>,
                 conn_faults = [3], conn_group_rank = (\<lambda>k. 0), conn_row_rank = (\<lambda>i. 0)\<rparr>)
     = Inr None"
    using analytics_degrades_gracefully
      [of "\<lparr>conn_db = \<lparr>inventory_analysis = [], chatbot_conversations = []\<rparr>,
           conn_faults = [3], conn_group_rank = (\<lambda>k. 0), conn_row_rank = (\<lambda>i. 0)\<rparr>"]
    by auto
  show "get_analytics_data
      (Openable \<lparr>conn_db = \<lparr>inventory_analysis = [], chatbot_conversations = []\<rparr>,
                 conn_faults = [], conn_group_rank = (\<lambda>k. 0), conn_row_rank = (\<lambda>i. 0)\<rparr>)
     = Inr (Some \<lparr>total_analyses = 0, categories = Map.empty, seasons = Map.empty,
                   decisions = Map.empty, top_products = [], recent_analyses = [],
                   total_chats = 0, chat_sources = Map.empty\<rparr>)"
    using analytics_degrades_gracefully [of _ "\<lambda>k. 0" "\<lambda>i. 0"] by blast
qed

text \<open>
  The claim says that no failure reaches the caller. The connection is opened before the
  \<^verbatim>\<open>try\<close>, so when \<^verbatim>\<open>sqlite3.connect\<close> raises (the directory of the database file is
  missing, say), the exception leaves \<^verbatim>\<open>get_analytics_data\<close>.
\<close>

theorem analytics_degrades_gracefully_counterexample:
  "get_analytics_data Unopenable = Inl OperationalError"
  by (simp add: get_analytics_data_def get_db_connection_def)

section \<open>The offers script: one entry for each product\<close>

text \<open>
  For a predicted demand below \<open>2\<^sup>5\<^sup>1\<close> the float product \<^verbatim>\<open>predicted * 1.5\<close> is exact, so
  the two tests of the script are the two tests of the claim.
\<close>

lemma floor_three_halves: "\<lfloor>rat_of_int n * (15 / 10)\<rfloor> = (3 * n) div 2"
proof -
  have "rat_of_int n * (15 / 10) = of_int (3 * n) / of_int 2" by simp
  then show ?thesis by (simp only: floor_divide_of_int_eq)
qed

lemma item_offers_claimed:
  assumes "row_demand a < 2 ^ 51"
  shows "item_offers (row_product_name a) (row_current_stock a) (row_demand a)
       = Inr (claimed_offers a)"
proof (cases "0 < row_demand a")
  case False
  then show ?thesis by (simp add: item_offers_def claimed_offers_def)
next
  case True
  have b: "0 \<le> row_demand a" "3 * row_demand a < 2 ^ 53" using True assms by simp_all
  note m = mul_three_halves [OF b]
  have "rat_of_int 0 \<le> of_int (3 * row_demand a)" using b(1) by (simp only: of_int_le_iff)
  then have nn: "0 \<le> rat_of_int (3 * row_demand a) / 2" by simp
  have "\<lfloor>rat_of_int (3 * row_demand a) / 2\<rfloor> = (3 * row_demand a) div 2"
    using floor_divide_of_int_eq [of "3 * row_demand a" 2, where ?'a = rat] by simp
  then have i: "int_of_float (Finite (of_int (3 * row_demand a) / 2))
      = Inr \<lfloor>rat_of_int (row_demand a) * (15 / 10)\<rfloor>"
    using nn unfolding floor_three_halves by (simp add: int_of_float_def)
  show ?thesis
    unfolding item_offers_def Let_def m sum.case i claimed_offers_def
    using True by simp
qed

lemma first_analysis_Cons:
  "first_analysis (a # rs) nm =
     (if row_product_name a = nm then Some a else first_analysis rs nm)"
  by (simp add: first_analysis_def)

lemma offers_loop_skip:
  "row_product_name a = [] \<or> row_product_name a \<in> set seen \<Longrightarrow>
     offers_loop (a # rs) seen acc = offers_loop rs seen acc"
  by simp

lemma offers_loop_take:
  assumes "row_product_name a \<noteq> []" and "row_product_name a \<notin> set seen"
    and "row_demand a < 2 ^ 51"
  shows "offers_loop (a # rs) seen acc =
     offers_loop rs (row_product_name a # seen)
       (if claimed_offers a = [] then acc else acc @ [claimed_entry a])"
proof -
  have i: "item_offers (row_product_name a) (row_current_stock a)
        (case row_predicted_demand a of None \<Rightarrow> 0 | Some n \<Rightarrow> n) = Inr (claimed_offers a)"
    using item_offers_claimed [OF assms(3)] by (simp add: row_demand_def)
  show ?thesis
    using assms(1,2) unfolding offers_loop.simps i sum.case
    by (simp add: claimed_entry_def row_demand_def)
qed

lemma claimed_entry_name [simp]: "entry_product_name (claimed_entry a) = row_product_name a"
  by (simp add: claimed_entry_def)

text \<open>
  The loop invariant. From any state of \<^verbatim>\<open>seen\<close> and \<^verbatim>\<open>offers\<close>, the loop appends entries
  with distinct names; a name gets an entry iff it is not empty, not yet seen, and the first
  of the remaining analyses with that name has an offer; the entry is made from that
  analysis.
\<close>

lemma offers_loop_invariant:
  assumes "\<forall>a\<in>set rs. row_demand a < 2 ^ 51"
  shows "\<exists>new. offers_loop rs seen acc = Inr (acc @ new)
     \<and> distinct (map entry_product_name new)
     \<and> (\<forall>nm. nm \<in> entry_product_name ` set new \<longleftrightarrow>
            nm \<noteq> [] \<and> nm \<notin> set seen
            \<and> (\<exists>a. first_analysis rs nm = Some a \<and> claimed_offers a \<noteq> []))
     \<and> (\<forall>e\<in>set new. \<exists>a. first_analysis rs (entry_product_name e) = Some a
            \<and> e = claimed_entry a)"
  using assms
proof (induction rs arbitrary: seen acc)
  case Nil
  show ?case by (simp add: first_analysis_def)
next
  case (Cons a rs)
  define n where "n = row_product_name a"
  have bound: "\<forall>b\<in>set rs. row_demand b < 2 ^ 51" and ba: "row_demand a < 2 ^ 51"
    using Cons.prems by simp_all
  show ?case
  proof (cases "n = [] \<or> n \<in> set seen")
    case True
    obtain new where l: "offers_loop rs seen acc = Inr (acc @ new)"
      and d: "distinct (map entry_product_name new)"
      and m: "\<forall>nm. nm \<in> entry_product_name ` set new \<longleftrightarrow>
            nm \<noteq> [] \<and> nm \<notin> set seen
            \<and> (\<exists>a. first_analysis rs nm = Some a \<and> claimed_offers a \<noteq> [])"
      and e: "\<forall>e\<in>set new. \<exists>a. first_analysis rs (entry_product_name e) = Some a
            \<and> e = claimed_entry a"
      using Cons.IH [OF bound, of seen acc] by blast
    have l': "offers_loop (a # rs) seen acc = Inr (acc @ new)"
      using True l offers_loop_skip [of a seen rs acc] by (simp add: n_def)
    have same: "first_analysis (a # rs) nm = first_analysis rs nm"
      if "nm \<noteq> []" and "nm \<notin> set seen" for nm
      using that True by (auto simp: first_analysis_Cons n_def)
    have m': "\<forall>nm. nm \<in> entry_product_name ` set new \<longleftrightarrow>
            nm \<noteq> [] \<and> nm \<notin> set seen
            \<and> (\<exists>b. first_analysis (a # rs) nm = Some b \<and> claimed_offers b \<noteq> [])"
      using m same by metis
    have e': "\<forall>e\<in>set new. \<exists>b. first_analysis (a # rs) (entry_product_name e) = Some b
            \<and> e = claimed_entry b"
    proof
      fix x assume x: "x \<in> set new"
      then have "entry_product_name x \<in> entry_product_name ` set new" by simp
      then have "entry_product_name x \<noteq> []" "entry_product_name x \<notin> set seen"
        using m by blast+
      then have "first_analysis (a # rs) (entry_product_name x)
          = first_analysis rs (entry_product_name x)" by (rule same)
      then show "\<exists>b. first_analysis (a # rs) (entry_product_name x) = Some b
            \<and> x = claimed_entry b" using e x by simp
    qed
    show ?thesis using l' d m' e' by blast
  next
    case False
    then have n1: "n \<noteq> []" and n2: "n \<notin> set seen" by simp_all
    define acc' where "acc' = (if claimed_offers a = [] then acc else acc @ [claimed_entry a])"
    define hd' where "hd' = (if claimed_offers a = [] then [] else [claimed_entry a])"
    have acc': "acc' = acc @ hd'" by (simp add: acc'_def hd'_def)
    obtain new where l: "offers_loop rs (n # seen) acc' = Inr (acc' @ new)"
      and d: "distinct (map entry_product_name new)"
      and m: "\<forall>nm. nm \<in> entry_product_name ` set new \<longleftrightarrow>
            nm \<noteq> [] \<and> nm \<notin> set (n # seen)
            \<and> (\<exists>a. first_analysis rs nm = Some a \<and> claimed_offers a \<noteq> [])"
      and e: "\<forall>e\<in>set new. \<exists>a. first_analysis rs (entry_product_name e) = Some a
            \<and> e = claimed_entry a"
      using Cons.IH [OF bound, of "n # seen" acc'] by blast
    have nn: "n \<notin> entry_product_name ` set new" using m by simp
    have l': "offers_loop (a # rs) seen acc = Inr (acc @ (hd' @ new))"
      using offers_loop_take [of a seen rs acc] n1 n2 ba l
      by (simp add: n_def acc'_def [symmetric] acc')
    have d': "distinct (map entry_product_name (hd' @ new))"
      using d nn by (auto simp: hd'_def n_def)
    have names: "entry_product_name ` set (hd' @ new)
        = (if claimed_offers a = [] then {} else {n}) \<union> entry_product_name ` set new"
      by (auto simp: hd'_def n_def)
    have m': "\<forall>nm. nm \<in> entry_product_name ` set (hd' @ new) \<longleftrightarrow>
            nm \<noteq> [] \<and> nm \<notin> set seen
            \<and> (\<exists>b. first_analysis (a # rs) nm = Some b \<and> claimed_offers b \<noteq> [])"
    proof
      fix nm
      show "nm \<in> entry_product_name ` set (hd' @ new) \<longleftrightarrow>
            nm \<noteq> [] \<and> nm \<notin> set seen
            \<and> (\<exists>b. first_analysis (a # rs) nm = Some b \<and> claimed_offers b \<noteq> [])"
      proof (cases "nm = n")
        case True
        have "first_analysis (a # rs) nm = Some a"
          using True by (simp add: first_analysis_Cons n_def)
        then show ?thesis unfolding names using True nn n1 n2 by auto
      next
        case False
        have "first_analysis (a # rs) nm = first_analysis rs nm"
          using False by (auto simp: first_analysis_Cons n_def)
        then show ?thesis unfolding names using False m by auto
      qed
    qed
    have e': "\<forall>e\<in>set (hd' @ new). \<exists>b. first_analysis (a # rs) (entry_product_name e) = Some b
            \<and> e = claimed_entry b"
    proof
      fix x assume "x \<in> set (hd' @ new)"
      then consider "x = claimed_entry a" | "x \<in> set new"
        by (auto simp: hd'_def split: if_splits)
      then show "\<exists>b. first_analysis (a # rs) (entry_product_name x) = Some b
            \<and> x = claimed_entry b"
      proof cases
        case 1
        then show ?thesis by (simp add: first_analysis_Cons)
      next
        case 2
        then have "entry_product_name x \<in> entry_product_name ` set new" by simp
        then have "entry_product_name x \<noteq> n" using nn by metis
        then have "first_analysis (a # rs) (entry_product_name x)
            = first_analysis rs (entry_product_name x)"
          by (auto simp: first_analysis_Cons n_def)
        then show ?thesis using e 2 by simp
      qed
    qed
    show ?thesis using l' d' m' e' by blast
  qed
qed

text \<open>
  The list of \<^verbatim>\<open>get_recent_analyses\<close> is in descending order of \<^verbatim>\<open>created_at\<close> and holds
  the most recent rows of the table, so the first analysis of a product in it is at least
  as recent as every analysis of that product in the table.
\<close>

lemma most_recent_subset: "set (most_recent rank n rs) \<subseteq> set rs"
proof -
  have "set (most_recent rank n rs)
      \<subseteq> set (sort_key (\<lambda>r. - int (row_created_at r)) (sort_key (\<lambda>r. rank (row_id r)) rs))"
    unfolding most_recent_def by (rule set_take_subset)
  then show ?thesis by simp
qed

lemma first_analysis_most_recent:
  assumes f: "first_analysis (most_recent rank n rs) nm = Some a"
    and b: "b \<in> set rs" and nb: "row_product_name b = nm"
  shows "row_created_at b \<le> row_created_at a"
proof -
  define key where "key = (\<lambda>r::analysis_row. - int (row_created_at r))"
  define xs where "xs = sort_key key (sort_key (\<lambda>r. rank (row_id r)) rs)"
  have s: "sorted (map key xs)" by (simp add: xs_def)
  have t: "most_recent rank n rs = take n xs" by (simp add: most_recent_def xs_def key_def)
  from f obtain i where i: "i < length (take n xs)" and ai: "take n xs ! i = a"
    and first: "\<forall>j<i. row_product_name (take n xs ! j) \<noteq> nm"
    unfolding first_analysis_def t find_Some_iff by blast
  from i have il: "i < length xs" and "i < n" by simp_all
  then have a: "xs ! i = a" using ai by simp
  from b have "b \<in> set xs" by (simp add: xs_def)
  then obtain k where k: "k < length xs" and bk: "xs ! k = b" by (auto simp: in_set_conv_nth)
  have "i \<le> k"
  proof (rule ccontr)
    assume "\<not> i \<le> k"
    then have ki: "k < i" by simp
    then have "take n xs ! k = b" using bk \<open>i < n\<close> by simp
    then show False using first ki nb by blast
  qed
  then have "map key xs ! i \<le> map key xs ! k"
    using s k by (simp only: sorted_iff_nth_mono length_map)
  then have "key a \<le> key b" using a bk il k by simp
  then show ?thesis by (simp add: key_def)
qed

lemma get_recent_analyses_Openable:
  "get_recent_analyses (Openable conn) limit =
     Inr (if 0 \<in> set (conn_faults conn) then []
          else most_recent (conn_row_rank conn) limit (inventory_analysis (conn_db conn)))"
  by (simp add: get_recent_analyses_def get_db_connection_def execute_def)

text \<open>
  Claim C10, as the code behaves, for a table whose predicted demands are below \<open>2\<^sup>5\<^sup>1\<close>
  and a connection that opens. The script builds the list \<^verbatim>\<open>offers\<close> from the list
  \<open>analyses\<close> that \<^verbatim>\<open>get_recent_analyses(1000)\<close> returns, and:
  \<^item> no two entries have the same product name;
  \<^item> a product name has an entry iff it is not empty and the first analysis with that
    name in \<open>analyses\<close> has an offer, that is \<open>predicted_demand > 0\<close> and either
    \<open>current_stock > predicted_demand\<close> or
    \<open>current_stock \<ge> floor(predicted_demand * 1.5)\<close>;
  \<^item> every entry is made from the first analysis with its name in \<open>analyses\<close>: it carries
    that analysis' product name, category, stock and demand, a DISCOUNT offer iff
    \<open>predicted_demand > 0\<close> and \<open>current_stock > predicted_demand\<close>, and a BOGO offer iff
    \<open>predicted_demand > 0\<close> and \<open>current_stock \<ge> floor(predicted_demand * 1.5)\<close>; and no
    analysis of that product in the table is more recent than this one.
\<close>

theorem offers_one_entry_per_product:
  assumes "\<forall>a\<in>set (inventory_analysis (conn_db conn)). row_demand a < 2 ^ 51"
  shows "\<exists>analyses offers.
       get_recent_analyses (Openable conn) 1000 = Inr analyses
     \<and> list_offers (Openable conn) = Inr offers
     \<and> distinct (map entry_product_name offers)
     \<and> (\<forall>nm. nm \<in> entry_product_name ` set offers \<longleftrightarrow>
            nm \<noteq> [] \<and> (\<exists>a. first_analysis analyses nm = Some a \<and> claimed_offers a \<noteq> []))
     \<and> (\<forall>e\<in>set offers. \<exists>a. first_analysis analyses (entry_product_name e) = Some a
            \<and> e = claimed_entry a
            \<and> (\<forall>b\<in>set (inventory_analysis (conn_db conn)).
                  row_product_name b = row_product_name a \<longrightarrow>
                  row_created_at b \<le> row_created_at a))"
proof -
  define tab where "tab = inventory_analysis (conn_db conn)"
  define analyses where "analyses =
     (if 0 \<in> set (conn_faults conn) then [] else most_recent (conn_row_rank conn) 1000 tab)"
  have g: "get_recent_analyses (Openable conn) 1000 = Inr analyses"
    by (simp add: get_recent_analyses_Openable analyses_def tab_def)
  have sub: "set analyses \<subseteq> set tab"
    using most_recent_subset [of "conn_row_rank conn" 1000 tab] by (simp add: analyses_def)
  then have bound: "\<forall>a\<in>set analyses. row_demand a < 2 ^ 51"
    using assms unfolding tab_def [symmetric] by blast
  obtain offers where l: "offers_loop analyses [] [] = Inr ([] @ offers)"
    and d: "distinct (map entry_product_name offers)"
    and m: "\<forall>nm. nm \<in> entry_product_name ` set offers \<longleftrightarrow>
            nm \<noteq> [] \<and> nm \<notin> set []
            \<and> (\<exists>a. first_analysis analyses nm = Some a \<and> claimed_offers a \<noteq> [])"
    and e: "\<forall>e\<in>set offers. \<exists>a. first_analysis analyses (entry_product_name e) = Some a
            \<and> e = claimed_entry a"
    using offers_loop_invariant [OF bound, of "[]" "[]"] by blast
  have l': "list_offers (Openable conn) = Inr offers"
    using l by (simp add: list_offers_def g)
  have m': "\<forall>nm. nm \<in> entry_product_name ` set offers \<longleftrightarrow>
            nm \<noteq> [] \<and> (\<exists>a. first_analysis analyses nm = Some a \<and> claimed_offers a \<noteq> [])"
    using m by simp
  have e': "\<forall>e\<in>set offers. \<exists>a. first_analysis analyses (entry_product_name e) = Some a
            \<and> e = claimed_entry a
            \<and> (\<forall>b\<in>set tab. row_product_name b = row_product_name a \<longrightarrow>
                  row_created_at b \<le> row_created_at a)"
  proof
    fix x assume "x \<in> set offers"
    then obtain a where fa: "first_analysis analyses (entry_product_name x) = Some a"
      and xa: "x = claimed_entry a" using e by blast
    have nf: "0 \<notin> set (conn_faults conn)"
      using fa by (auto simp: analyses_def first_analysis_def split: if_splits)
    then have fa': "first_analysis (most_recent (conn_row_rank conn) 1000 tab)
         (entry_product_name x) = Some a" using fa by (simp add: analyses_def)
    have nm: "row_product_name a = entry_product_name x" using xa by simp
    have "\<forall>b\<in>set tab. row_product_name b = row_product_name a \<longrightarrow>
                  row_created_at b \<le> row_created_at a"
      using first_analysis_most_recent [OF fa'] nm by simp
    then show "\<exists>a. first_analysis analyses (entry_product_name x) = Some a
            \<and> x = claimed_entry a
            \<and> (\<forall>b\<in>set tab. row_product_name b = row_product_name a \<longrightarrow>
                  row_created_at b \<le> row_created_at a)"
      using fa xa by blast
  qed
  show ?thesis using g l' d m' e' unfolding tab_def by blast
qed

lemma float_of_int_above_2_53:
  "float_of_int 9007199254740993 = Inr (Finite 9007199254740992)"
  by (simp add: float_of_int_def float_eval)

lemma float_mul_three_halves_2_53:
  "float_mul (Finite 9007199254740992) (float_lit (15 / 10)) = Finite 13510798882111488"
  unfolding float_lit_three_halves by (simp add: float_eval)

lemma item_offers_above_2_53:
  "item_offers nm 13510798882111488 9007199254740993 = Inr [discount_offer nm, bogo_offer nm]"
  unfolding item_offers_def int_mul_float_def float_of_int_above_2_53 sum.case
    float_mul_three_halves_2_53
  by (simp add: int_of_float_def)

text \<open>
  A table of four analyses. The newer analysis of Rice (stock 200, demand 100) gives both
  offers and hides the older one; Milk (stock 50) has no offer and is not listed; Salt
  (stock 120) has the discount only.
\<close>

theorem offers_one_entry_per_product_witness:
  "\<exists>offers. list_offers
     (Openable
        \<lparr>conn_db =
           \<lparr>inventory_analysis =
              [\<lparr>row_id = 1, row_product_name = ''Rice'', row_category = Some ''Groceries'',
                row_season = ''Regular'', row_current_stock = 120,
                row_predicted_demand = Some 100, row_recommendation = None,
                row_decision = None, row_price = None, row_unit = None,
                row_optimal_level = None, row_created_at = 1, row_updated_at = 1\<rparr>,
               \<lparr>row_id = 2, row_product_name = ''Milk'', row_category = Some ''Dairy'',
                row_season = ''Regular'', row_current_stock = 50,
                row_predicted_demand = Some 100, row_recommendation = None,
                row_decision = None, row_price = None, row_unit = None,
                row_optimal_level = None, row_created_at = 2, row_updated_at = 2\<rparr>,
               \<lparr>row_id = 3, row_product_name = ''Rice'', row_category = Some ''Groceries'',
                row_season = ''Regular'', row_current_stock = 200,
                row_predicted_demand = Some 100, row_recommendation = None,
                row_decision = None, row_price = None, row_unit = None,
                row_optimal_level = None, row_created_at = 3, row_updated_at = 3\<rparr>,
               \<lparr>row_id = 4, row_product_name = ''Salt'', row_category = Some ''Condiments'',
                row_season = ''Regular'', row_current_stock = 120,
                row_predicted_demand = Some 100, row_recommendation = None,
                row_decision = None, row_price = None, row_unit = None,
                row_optimal_level = None, row_created_at = 0, row_updated_at = 0\<rparr>],
            chatbot_conversations = []\<rparr>,
         conn_faults = [], conn_group_rank = (\<lambda>k. 0), conn_row_rank = (\<lambda>i. 0)\<rparr>) = Inr offers
   \<and> distinct (map entry_product_name offers)
   \<and> offers =
       [\<lparr>entry_product_name = ''Rice'', entry_category = Some ''Groceries'',
             entry_current_stock = 200, entry_predicted_demand = 100,
             entry_offers = [discount_offer ''Rice'', bogo_offer ''Rice'']\<rparr>,
        \<lparr>entry_product_name = ''Salt'', entry_category = Some ''Condiments'',
             entry_current_stock = 120, entry_predicted_demand = 100,
             entry_offers = [discount_offer ''Salt'']\<rparr>]"
proof -
  define tab where "tab =
      [\<lparr>row_id = 1, row_product_name = ''Rice'', row_category = Some ''Groceries'',
        row_season = ''Regular'', row_current_stock = 120,
        row_predicted_demand = Some 100, row_recommendation = None,
        row_decision = None, row_price = None, row_unit = None,
        row_optimal_level = None, row_created_at = 1, row_updated_at = 1\<rparr>,
       \<lparr>row_id = 2, row_product_name = ''Milk'', row_category = Some ''Dairy'',
        row_season = ''Regular'', row_current_stock = 50,
        row_predicted_demand = Some 100, row_recommendation = None,
        row_decision = None, row_price = None, row_unit = None,
        row_optimal_level = None, row_created_at = 2, row_updated_at = 2\<rparr>,
       \<lparr>row_id = 3, row_product_name = ''Rice'', row_category = Some ''Groceries'',
        row_season = ''Regular'', row_current_stock = 200,
        row_predicted_demand = Some 100, row_recommendation = None,
        row_decision = None, row_price = None, row_unit = None,
        row_optimal_level = None, row_created_at = 3, row_updated_at = 3\<rparr>,
       \<lparr>row_id = 4, row_product_name = ''Salt'', row_category = Some ''Condiments'',
        row_season = ''Regular'', row_current_stock = 120,
        row_predicted_demand = Some 100, row_recommendation = None,
        row_decision = None, row_price = None, row_unit = None,
        row_optimal_level = None, row_created_at = 0, row_updated_at = 0\<rparr>]"
  define conn where "conn =
     \<lparr>conn_db = \<lparr>inventory_analysis = tab, chatbot_conversations = []\<rparr>,
      conn_faults = [], conn_group_rank = (\<lambda>k::string. 0::int),
      conn_row_rank = (\<lambda>i::nat. 0::int)\<rparr>"
  have bound: "\<forall>a\<in>set (inventory_analysis (conn_db conn)). row_demand a < 2 ^ 51"
    by (simp add: conn_def tab_def row_demand_def)
  from offers_one_entry_per_product [OF bound] obtain offers
    where l: "list_offers (Openable conn) = Inr offers"
      and d: "distinct (map entry_product_name offers)"
    by blast
  have g: "get_recent_analyses (Openable conn) 1000 = Inr [tab ! 2, tab ! 1, tab ! 0, tab ! 3]"
    by (simp add: get_recent_analyses_Openable conn_def most_recent_def tab_def)
  have "list_offers (Openable conn) =
      Inr [\<lparr>entry_product_name = ''Rice'', entry_category = Some ''Groceries'',
            entry_current_stock = 200, entry_predicted_demand = 100,
            entry_offers = [discount_offer ''Rice'', bogo_offer ''Rice'']\<rparr>,
           \<lparr>entry_product_name = ''Salt'', entry_category = Some ''Condiments'',
            entry_current_stock = 120, entry_predicted_demand = 100,
            entry_offers = [discount_offer ''Salt'']\<rparr>]"
    unfolding list_offers_def g sum.case
    by (simp add: tab_def offers_loop_take offers_loop_skip claimed_offers_def claimed_entry_def
        row_demand_def floor_three_halves del: offers_loop.simps(2))
  then show ?thesis using l d unfolding conn_def tab_def by simp
qed

text \<open>
  Two ways in which the claim fails as it is worded. An analysis with the empty product name
  is skipped by \<^verbatim>\<open>if not product\<close>: with stock 200 and demand 100 both conditions of the
  claim hold, and the script lists nothing. And the BOGO threshold is the float product
  \<^verbatim>\<open>int(predicted * 1.5)\<close>: for the demand \<open>2\<^sup>5\<^sup>3 + 1\<close> the conversion to a float rounds
  the demand down to \<open>2\<^sup>5\<^sup>3\<close>, the threshold is 13510798882111488 where
  \<open>floor(predicted * 1.5)\<close> is 13510798882111489, and a stock of 13510798882111488 gets the
  BOGO offer although it is below \<open>floor(predicted_demand * 1.5)\<close>.
\<close>

theorem offers_one_entry_per_product_counterexample:
  "list_offers
     (Openable
        \<lparr>conn_db =
           \<lparr>inventory_analysis =
              [\<lparr>row_id = 1, row_product_name = '''', row_category = Some ''Miscellaneous'',
                row_season = ''Regular'', row_current_stock = 200,
                row_predicted_demand = Some 100, row_recommendation = None,
                row_decision = None, row_price = None, row_unit = None,
                row_optimal_level = None, row_created_at = 1, row_updated_at = 1\<rparr>],
            chatbot_conversations = []\<rparr>,
         conn_faults = [], conn_group_rank = (\<lambda>k. 0), conn_row_rank = (\<lambda>i. 0)\<rparr>) = Inr []
   \<and> claimed_offers
        \<lparr>row_id = 1, row_product_name = '''', row_category = Some ''Miscellaneous'',
         row_season = ''Regular'', row_current_stock = 200,
         row_predicted_demand = Some 100, row_recommendation = None,
         row_decision = None, row_price = None, row_unit = None,
         row_optimal_level = None, row_created_at = 1, row_updated_at = 1\<rparr>
       = [discount_offer '''', bogo_offer '''']
   \<and> list_offers
     (Openable
        \<lparr>conn_db =
           \<lparr>inventory_analysis =
              [\<lparr>row_id = 1, row_product_name = ''Rice'', row_category = Some ''Groceries'',
                row_season = ''Regular'', row_current_stock = 13510798882111488,
                row_predicted_demand = Some 9007199254740993, row_recommendation = None,
                row_decision = None, row_price = None, row_unit = None,
                row_optimal_level = None, row_created_at = 1, row_updated_at = 1\<rparr>],
            chatbot_conversations = []\<rparr>,
         conn_faults = [], conn_group_rank = (\<lambda>k. 0), conn_row_rank = (\<lambda>i. 0)\<rparr>)
     = Inr [\<lparr>entry_product_name = ''Rice'', entry_category = Some ''Groceries'',
            entry_current_stock = 13510798882111488, entry_predicted_demand = 9007199254740993,
            entry_offers = [discount_offer ''Rice'', bogo_offer ''Rice'']\<rparr>]
   \<and> \<lfloor>rat_of_int 9007199254740993 * (15 / 10)\<rfloor> = 13510798882111489
   \<and> claimed_offers
        \<lparr>row_id = 1, row_product_name = ''Rice'', row_category = Some ''Groceries'',
         row_season = ''Regular'', row_current_stock = 13510798882111488,
         row_predicted_demand = Some 9007199254740993, row_recommendation = None,
         row_decision = None, row_price = None, row_unit = None,
         row_optimal_level = None, row_created_at = 1, row_updated_at = 1\<rparr>
       = [discount_offer ''Rice'']"
proof (intro conjI)
  show "\<lfloor>rat_of_int 9007199254740993 * (15 / 10)\<rfloor> = 13510798882111489"
    unfolding floor_three_halves by simp
qed (simp_all add: list_offers_def get_recent_analyses_Openable most_recent_def
      item_offers_above_2_53 claimed_offers_def row_demand_def floor_three_halves)

end
